theory Spec2Isabelle
  imports Complex_Main "HOL-Library.Log_Nat"
begin

section \<open>The configuration layer of m\_config.c\<close>

text \<open>
  The theory embeds the persistence code of \<^verbatim>\<open>src/src/m_config.c\<close>: the alias table, the
  scancode table, the value formatter inside \<^verbatim>\<open>SaveDefaultCollection\<close>, the parsers
  \<^verbatim>\<open>ParseIntParameter\<close> and \<^verbatim>\<open>ParseFloatParameter\<close>, the per-record body of
  \<^verbatim>\<open>LoadDefaultCollection\<close>, \<^verbatim>\<open>M_SaveDefaults\<close> and the volume statements of
  \<^verbatim>\<open>M_CheckDefaults\<close>.

  Conventions.
  \<^item> A C \<^verbatim>\<open>int\<close> is an \<^typ>\<open>int\<close> that lies in the 32-bit range \<open>int32\<close>; where the C
    code would leave that range, read an object it never wrote, or index outside an
    array, the model returns a \<open>fault\<close> (\<open>Inl\<close>) instead of a value.
  \<^item> A C string is a \<^typ>\<open>string\<close> without its terminating NUL.
  \<^item> A C \<^verbatim>\<open>float\<close> is the rational number it denotes; infinities and NaN are outside
    the model.
\<close>

subsection \<open>Faults: what C leaves undefined, and what the model leaves out\<close>

datatype fault =
    UninitialisedRead     \<comment> \<open>the value of a local that no statement assigned\<close>
  | IndexOutOfBounds      \<comment> \<open>an array or string indexed outside the object\<close>
  | Unrepresentable       \<comment> \<open>a conversion or an arithmetic result that does not fit the type\<close>
  | TypeMismatch          \<comment> \<open>a location read at a type other than the one stored there\<close>
  | NotModelled           \<comment> \<open>a floating-point text or value the model does not cover\<close>

definition int32 :: "int \<Rightarrow> bool" where
  "int32 n = (- 2147483648 \<le> n \<and> n \<le> 2147483647)"

text \<open>C's integer division truncates towards zero.\<close>

definition c_div :: "int \<Rightarrow> int \<Rightarrow> int" where
  "c_div a b = sgn a * sgn b * (\<bar>a\<bar> div \<bar>b\<bar>)"

subsection \<open>The volume statements of M\_CheckDefaults\<close>

text \<open>
  Modelled from the spec: the macro \<^verbatim>\<open>BETWEEN\<close> is declared in a header that is not among
  the sources. The spec describes it as clamping a ranged setting into its documented
  \<open>[min, max]\<close>; the argument order \<open>(min, value, max)\<close> is the one of the call sites.
\<close>

definition BETWEEN :: "int \<Rightarrow> int \<Rightarrow> int \<Rightarrow> int" where
  "BETWEEN a b c = max a (min b c)"

text \<open>
  \<^verbatim>\<open>(BETWEEN(MIN, percent, MAX) * 15 + 50) / 100\<close>, the right-hand side of both
  \<^verbatim>\<open>musicVolume = ...\<close> (line 794) and \<^verbatim>\<open>sfxVolume = ...\<close> (line 846). The bounds
  \<^verbatim>\<open>MUSICVOLUME_MIN\<close>, \<^verbatim>\<open>MUSICVOLUME_MAX\<close> (and the SFX ones) are macros of a header
  that is not among the sources: they are parameters. Signed overflow is a fault.
\<close>

definition percent_to_volume :: "int \<Rightarrow> int \<Rightarrow> int \<Rightarrow> fault + int" where
  "percent_to_volume vmin percent vmax =
     (let c = BETWEEN vmin percent vmax in
      if int32 (c * 15) \<and> int32 (c * 15 + 50) then Inr (c_div (c * 15 + 50) 100)
      else Inl Unrepresentable)"

record volumes =
  musicvolume_percent :: int
  sfxvolume_percent :: int
  musicVolume :: int
  sfxVolume :: int

text \<open>
  The two statements of \<^verbatim>\<open>M_CheckDefaults\<close> that assign \<^verbatim>\<open>musicVolume\<close> and
  \<^verbatim>\<open>sfxVolume\<close>, in source order; no other statement of the function (nor of
  \<^verbatim>\<open>M_SaveDefaults\<close>, which it calls last) assigns one of the four variables.
\<close>

definition M_CheckDefaults_volumes ::
  "int \<Rightarrow> int \<Rightarrow> int \<Rightarrow> int \<Rightarrow> volumes \<Rightarrow> fault + volumes" where
  "M_CheckDefaults_volumes music_min music_max sfx_min sfx_max v =
     (case percent_to_volume music_min (musicvolume_percent v) music_max of
        Inl e \<Rightarrow> Inl e
      | Inr m \<Rightarrow>
          (case percent_to_volume sfx_min (sfxvolume_percent v) sfx_max of
             Inl e \<Rightarrow> Inl e
           | Inr s \<Rightarrow> Inr (v\<lparr>musicVolume := m, sfxVolume := s\<rparr>)))"


subsection \<open>The C library, as far as the code uses it\<close>

definition squote :: char where "squote = CHR 0x27"
definition dquote :: char where "dquote = CHR 0x22"
definition newline :: char where "newline = CHR 0x0A"

text \<open>
  A \<^verbatim>\<open>char\<close> read as an \<^verbatim>\<open>int\<close>. Plain \<^verbatim>\<open>char\<close> is signed on the x86 targets of the
  port, so the bytes from 128 on are negative; the choice matters for no ASCII text.
\<close>

definition char_int :: "char \<Rightarrow> int" where
  "char_int c = (if (of_char c :: int) < 128 then of_char c else of_char c - 256)"

text \<open>\<^verbatim>\<open>isspace\<close>, \<^verbatim>\<open>isprint\<close> and \<^verbatim>\<open>tolower\<close> in the C locale.\<close>

definition isspace_c :: "char \<Rightarrow> bool" where
  "isspace_c c = ((of_char c :: nat) = 32 \<or> (9 \<le> (of_char c :: nat) \<and> (of_char c :: nat) \<le> 13))"

definition isprint_c :: "int \<Rightarrow> bool" where
  "isprint_c c = (32 \<le> c \<and> c \<le> 126)"

definition tolower_c :: "int \<Rightarrow> int" where
  "tolower_c c = (if 65 \<le> c \<and> c \<le> 90 then c + 32 else c)"

text \<open>\<^verbatim>\<open>!strcasecmp(a, b)\<close>: equal up to the case of ASCII letters.\<close>

definition strcasecmp_eq :: "string \<Rightarrow> string \<Rightarrow> bool" where
  "strcasecmp_eq a b = (map (\<lambda>c. tolower_c (char_int c)) a = map (\<lambda>c. tolower_c (char_int c)) b)"

text \<open>The value of a digit, for the bases 8, 10 and 16.\<close>

definition digit_of :: "char \<Rightarrow> nat option" where
  "digit_of c =
     (let n = (of_char c :: nat) in
      if 48 \<le> n \<and> n \<le> 57 then Some (n - 48)
      else if 97 \<le> n \<and> n \<le> 102 then Some (n - 87)
      else if 65 \<le> n \<and> n \<le> 70 then Some (n - 55)
      else None)"

definition is_digit :: "nat \<Rightarrow> char \<Rightarrow> bool" where
  "is_digit b c = (case digit_of c of Some d \<Rightarrow> d < b | None \<Rightarrow> False)"

definition digits_value :: "nat \<Rightarrow> string \<Rightarrow> nat" where
  "digits_value b ds = foldl (\<lambda>n c. n * b + (case digit_of c of Some d \<Rightarrow> d | None \<Rightarrow> 0)) 0 ds"

definition scan_sign :: "string \<Rightarrow> bool \<times> string" where
  "scan_sign s =
     (case s of
        [] \<Rightarrow> (False, s)
      | c # r \<Rightarrow> if c = CHR ''-'' then (True, r) else if c = CHR ''+'' then (False, r) else (False, s))"

definition scan_digits :: "nat \<Rightarrow> string \<Rightarrow> nat option" where
  "scan_digits b s =
     (let ds = takeWhile (is_digit b) s in if ds = [] then None else Some (digits_value b ds))"

definition signed :: "bool \<Rightarrow> nat \<Rightarrow> int" where
  "signed neg n = (if neg then - int n else int n)"

text \<open>
  \<^verbatim>\<open>sscanf(s, "%<w>i", &parm)\<close>: white space is skipped, then at most \<open>w\<close> characters are
  read: a sign, then a hexadecimal number after \<^verbatim>\<open>0x\<close>, an octal one after \<^verbatim>\<open>0\<close>, a decimal
  one otherwise. \<open>None\<close> is a matching failure, which assigns nothing; \<open>Some n\<close> is the
  number read, before it is stored.
\<close>

definition sscanf_i :: "nat \<Rightarrow> string \<Rightarrow> int option" where
  "sscanf_i w s =
     (let (neg, t) = scan_sign (take w (dropWhile isspace_c s)) in
      map_option (signed neg)
        (case t of
           [] \<Rightarrow> None
         | c # r \<Rightarrow>
             if c = CHR ''0'' then
               (case r of
                  [] \<Rightarrow> Some 0
                | x # r' \<Rightarrow>
                    if x = CHR ''x'' \<or> x = CHR ''X'' then scan_digits 16 r'
                    else Some (digits_value 8 (takeWhile (is_digit 8) r)))
             else scan_digits 10 t))"

text \<open>\<^verbatim>\<open>sscanf(s, "%<w>x", &parm)\<close>: a sign, an optional \<^verbatim>\<open>0x\<close>, hexadecimal digits.\<close>

definition skip_0x :: "string \<Rightarrow> string" where
  "skip_0x t =
     (case t of
        c # x # r \<Rightarrow> if c = CHR ''0'' \<and> (x = CHR ''x'' \<or> x = CHR ''X'') then r else t
      | _ \<Rightarrow> t)"

definition sscanf_x :: "nat \<Rightarrow> string \<Rightarrow> int option" where
  "sscanf_x w s =
     (let (neg, t) = scan_sign (take w (dropWhile isspace_c s)) in
      map_option (signed neg) (scan_digits 16 (skip_0x t)))"

text \<open>The \<^verbatim>\<open>unsigned\<close> that \<^verbatim>\<open>%x\<close> stores, read back through the \<^verbatim>\<open>int\<close> it was stored in.\<close>

definition as_int32 :: "int \<Rightarrow> int" where
  "as_int32 u = (let m = u mod 4294967296 in if m < 2147483648 then m else m - 4294967296)"

subsection \<open>The alias table\<close>

record alias_t =
  alias_text :: string
  alias_value :: int
  alias_set :: int

definition A :: "string \<Rightarrow> int \<Rightarrow> int \<Rightarrow> alias_t" where
  "A t v s = \<lparr>alias_text = t, alias_value = v, alias_set = s\<rparr>"

text \<open>The table \<^verbatim>\<open>aliases[]\<close>, in declaration order, the entry with the empty text last.\<close>

definition aliases :: "alias_t list" where
  "aliases =
    [A ''off'' 0 1,
     A ''on'' 1 1,
     A ''0'' 0 1,
     A ''1'' 1 1,
     A ''no'' 0 1,
     A ''yes'' 1 1,
     A ''false'' 0 1,
     A ''true'' 1 1,
     A ''-'' 0 2,
     A ''none'' 0 2,
     A ''dpadup'' 1 2,
     A ''dpaddown'' 2 2,
     A ''dpadleft'' 4 2,
     A ''dpadright'' 8 2,
     A ''start'' 16 2,
     A ''back'' 32 2,
     A ''leftthumb'' 64 2,
     A ''rightthumb'' 128 2,
     A ''leftshoulder'' 256 2,
     A ''LS'' 256 2,
     A ''leftbutton'' 256 2,
     A ''LB'' 256 2,
     A ''rightshoulder'' 512 2,
     A ''RS'' 512 2,
     A ''rightbutton'' 512 2,
     A ''RB'' 512 2,
     A ''lefttrigger'' 1024 2,
     A ''LT'' 1024 2,
     A ''righttrigger'' 2048 2,
     A ''RT'' 2048 2,
     A ''gamepad1'' 4096 2,
     A ''gamepad2'' 8192 2,
     A ''gamepad3'' 16384 2,
     A ''gamepad4'' 32768 2,
     A ''-'' 0 3,
     A ''none'' 0 3,
     A ([squote] @ ''+'' @ [squote]) 13 3,
     A ''backspace'' 14 3,
     A ''tab'' 15 3,
     A ''enter'' 28 3,
     A ''ctrl'' 29 3,
     A ''shift'' 42 3,
     A ''alt'' 56 3,
     A ''space'' 57 3,
     A ''capslock'' 58 3,
     A ''home'' 71 3,
     A ''up'' 72 3,
     A ''pageup'' 73 3,
     A ''left'' 75 3,
     A ''right'' 77 3,
     A ''end'' 79 3,
     A ''down'' 80 3,
     A ''pagedown'' 81 3,
     A ''insert'' 82 3,
     A ''del'' 83 3,
     A ''-'' (- 1) 4,
     A ''none'' (- 1) 4,
     A ''left'' 0 4,
     A ''mouse1'' 0 4,
     A ''middle'' 1 4,
     A ''mouse2'' 1 4,
     A ''right'' 2 4,
     A ''mouse3'' 2 4,
     A ''mouse4'' 3 4,
     A ''mouse5'' 4 4,
     A ''mouse6'' 5 4,
     A ''mouse7'' 6 4,
     A ''mouse8'' 7 4,
     A ''wheelup'' 8 4,
     A ''wheeldown'' 9 4,
     A ''desktop'' 0 5,
     A ''low'' 0 6,
     A ''high'' 1 6,
     A ''-'' 0 7,
     A ''unlimited'' 32768 7,
     A ([dquote] @ ''Knee-Deep in the Dead'' @ [dquote]) 0 8,
     A ([dquote] @ ''The Shores of Hell'' @ [dquote]) 1 8,
     A ([dquote] @ ''Inferno'' @ [dquote]) 2 8,
     A ([dquote] @ ''Thy Flesh Consumed'' @ [dquote]) 3 8,
     A ([dquote] @ ''Hell on Earth'' @ [dquote]) 0 9,
     A ([dquote] @ ''No Rest for the Living'' @ [dquote]) 1 9,
     A ([dquote] @ ''I'm too young to die.'' @ [dquote]) 0 10,
     A ([dquote] @ ''Hey, not too rough.'' @ [dquote]) 1 10,
     A ([dquote] @ ''Hurt me plenty.'' @ [dquote]) 2 10,
     A ([dquote] @ ''Ultra-Violence.'' @ [dquote]) 3 10,
     A ([dquote] @ ''Nightmare!'' @ [dquote]) 4 10,
     A ''off'' 1 11,
     A '''' 0 0]"

text \<open>
  The scans \<^verbatim>\<open>while (aliases[j].text[0]) { if (...) {...; break;} j++; }\<close>. Each stops at the
  first entry whose text is empty; the first equation is never reached on \<open>aliases\<close>, which
  ends with such an entry.
\<close>

fun alias_of_value :: "alias_t list \<Rightarrow> int \<Rightarrow> int \<Rightarrow> string option" where
  "alias_of_value [] v s = None"
| "alias_of_value (a # as) v s =
     (if alias_text a = [] then None
      else if v = alias_value a \<and> s = alias_set a then Some (alias_text a)
      else alias_of_value as v s)"

text \<open>The same scan on a \<^verbatim>\<open>float\<close>: \<^verbatim>\<open>v == aliases[j].value\<close> compares with the converted \<^verbatim>\<open>int\<close>.\<close>

fun alias_of_float :: "alias_t list \<Rightarrow> rat \<Rightarrow> int \<Rightarrow> string option" where
  "alias_of_float [] v s = None"
| "alias_of_float (a # as) v s =
     (if alias_text a = [] then None
      else if v = of_int (alias_value a) \<and> s = alias_set a then Some (alias_text a)
      else alias_of_float as v s)"

fun alias_of_text :: "alias_t list \<Rightarrow> string \<Rightarrow> int \<Rightarrow> int option" where
  "alias_of_text [] strparm s = None"
| "alias_of_text (a # as) strparm s =
     (if alias_text a = [] then None
      else if strcasecmp_eq strparm (alias_text a) \<and> s = alias_set a then Some (alias_value a)
      else alias_of_text as strparm s)"

subsection \<open>The scancode table\<close>

text \<open>
  The key codes \<^verbatim>\<open>KEY_...\<close> and \<^verbatim>\<open>KEYP_...\<close> are macros of a header that is not among the
  sources: they are parameters, one field each.
\<close>

definition INVALIDKEY :: int where
  "INVALIDKEY = - 1"

record doomkeys =
  KEY_BACKSPACE :: int
  KEY_RCTRL :: int
  KEY_TILDE :: int
  KEY_RSHIFT :: int
  KEYP_MULTIPLY :: int
  KEY_RALT :: int
  KEY_CAPSLOCK :: int
  KEY_PAUSE :: int
  KEY_SCRLCK :: int
  KEY_HOME :: int
  KEY_UPARROW :: int
  KEY_PGUP :: int
  KEY_MINUS :: int
  KEY_LEFTARROW :: int
  KEYP_5 :: int
  KEY_RIGHTARROW :: int
  KEYP_PLUS :: int
  KEY_END :: int
  KEY_DOWNARROW :: int
  KEY_PGDN :: int
  KEY_INS :: int
  KEY_DEL :: int

definition scantokey :: "doomkeys \<Rightarrow> int list" where
  "scantokey K =
    [0, 27, char_int (CHR ''1''), char_int (CHR ''2''),
     char_int (CHR ''3''), char_int (CHR ''4''), char_int (CHR ''5''), char_int (CHR ''6''),
     char_int (CHR ''7''), char_int (CHR ''8''), char_int (CHR ''9''), char_int (CHR ''0''),
     char_int (CHR ''-''), char_int (CHR ''=''), KEY_BACKSPACE K, 9,
     char_int (CHR ''q''), char_int (CHR ''w''), char_int (CHR ''e''), char_int (CHR ''r''),
     char_int (CHR ''t''), char_int (CHR ''y''), char_int (CHR ''u''), char_int (CHR ''i''),
     char_int (CHR ''o''), char_int (CHR ''p''), char_int (CHR ''[''), char_int (CHR '']''),
     13, KEY_RCTRL K, char_int (CHR ''a''), char_int (CHR ''s''),
     char_int (CHR ''d''), char_int (CHR ''f''), char_int (CHR ''g''), char_int (CHR ''h''),
     char_int (CHR ''j''), char_int (CHR ''k''), char_int (CHR ''l''), char_int (CHR '';''),
     char_int squote, KEY_TILDE K, KEY_RSHIFT K, char_int (CHR 0x5C),
     char_int (CHR ''z''), char_int (CHR ''x''), char_int (CHR ''c''), char_int (CHR ''v''),
     char_int (CHR ''b''), char_int (CHR ''n''), char_int (CHR ''m''), char_int (CHR '',''),
     char_int (CHR ''.''), char_int (CHR ''/''), KEY_RSHIFT K, KEYP_MULTIPLY K,
     KEY_RALT K, char_int (CHR '' ''), KEY_CAPSLOCK K, INVALIDKEY,
     INVALIDKEY, INVALIDKEY, INVALIDKEY, INVALIDKEY,
     INVALIDKEY, INVALIDKEY, INVALIDKEY, INVALIDKEY,
     INVALIDKEY, KEY_PAUSE K, KEY_SCRLCK K, KEY_HOME K,
     KEY_UPARROW K, KEY_PGUP K, KEY_MINUS K, KEY_LEFTARROW K,
     KEYP_5 K, KEY_RIGHTARROW K, KEYP_PLUS K, KEY_END K,
     KEY_DOWNARROW K, KEY_PGDN K, KEY_INS K, KEY_DEL K,
     0, 0, 0, INVALIDKEY,
     INVALIDKEY, 0, 0, 0,
     0, 0, 0, 0,
     0, 0, 0, 0,
     0, 0, 0, 0,
     0, 0, 0, 0,
     0, 0, 0, 0,
     0, 0, 0, 0,
     0, 0, 0, 0,
     0, 0, 0, 0,
     0, 0, 0, 0]"

text \<open>
  The loop \<^verbatim>\<open>for (s = 0; s < 128; ++s) if (scantokey[s] == v) ...\<close>: the first index whose
  entry is \<open>v\<close>.
\<close>

fun first_index :: "int list \<Rightarrow> int \<Rightarrow> nat \<Rightarrow> nat option" where
  "first_index [] v i = None"
| "first_index (x # xs) v i = (if x = v then Some i else first_index xs v (Suc i))"

subsection \<open>ParseIntParameter\<close>

text \<open>
  \<^verbatim>\<open>if (strparm[0] == '\'' && strparm[2] == '\'') for (i ...) if (tolower(strparm[1]) ==
  scantokey[i]) return i;\<close>. \<open>Inr None\<close>: the test fails or no entry matches, and control
  falls through. For the one-character text \<^verbatim>\<open>'\<close> the test reads \<^verbatim>\<open>strparm[2]\<close>, one
  position past the terminating NUL.
\<close>

definition quoted_key :: "doomkeys \<Rightarrow> string \<Rightarrow> fault + int option" where
  "quoted_key K strparm =
     (case strparm of
        [] \<Rightarrow> Inr None
      | [c0] \<Rightarrow> if c0 = squote then Inl IndexOutOfBounds else Inr None
      | [c0, c1] \<Rightarrow> Inr None
      | c0 # c1 # c2 # r \<Rightarrow>
          if c0 = squote \<and> c2 = squote
          then Inr (map_option int (first_index (scantokey K) (tolower_c (char_int c1)) 0))
          else Inr None)"

text \<open>
  The tail of the function: \<^verbatim>\<open>int parm;\<close> is declared without an initialiser, one of the
  two \<^verbatim>\<open>sscanf\<close> calls may assign it, and \<^verbatim>\<open>return parm;\<close> reads it. After a matching
  failure the read is of an object that was never written.
\<close>

definition scan_number :: "string \<Rightarrow> fault + int" where
  "scan_number strparm =
     (if take 2 strparm = ''0x'' then
        (case sscanf_x 10 (drop 2 strparm) of
           None \<Rightarrow> Inl UninitialisedRead
         | Some n \<Rightarrow> if \<bar>n\<bar> < 4294967296 then Inr (as_int32 n) else Inl Unrepresentable)
      else
        (case sscanf_i 10 strparm of
           None \<Rightarrow> Inl UninitialisedRead
         | Some n \<Rightarrow> if int32 n then Inr n else Inl Unrepresentable))"

definition ParseIntParameter :: "doomkeys \<Rightarrow> string \<Rightarrow> int \<Rightarrow> fault + int" where
  "ParseIntParameter K strparm s =
     (case alias_of_text aliases strparm s of
        Some v \<Rightarrow> Inr v
      | None \<Rightarrow>
          (case quoted_key K strparm of
             Inl e \<Rightarrow> Inl e
           | Inr (Some i) \<Rightarrow> Inr i
           | Inr None \<Rightarrow> scan_number strparm))"

subsection \<open>printf conversions\<close>

definition digit_char :: "nat \<Rightarrow> char" where
  "digit_char d = char_of (if d < 10 then 48 + d else 87 + d)"

text \<open>The digits of a number in base \<open>b\<close>, most significant first, lower-case.\<close>

function digits :: "nat \<Rightarrow> nat \<Rightarrow> string" where
  "digits b n = (if b < 2 \<or> n < b then [digit_char n] else digits b (n div b) @ [digit_char (n mod b)])"
  by pat_completeness auto
termination
  by (relation "measure snd") auto

text \<open>\<^verbatim>\<open>%i\<close> of an \<^verbatim>\<open>int\<close>, and \<^verbatim>\<open>%x\<close> of an \<^verbatim>\<open>int\<close> passed where an \<^verbatim>\<open>unsigned\<close> is read.\<close>

definition printf_i :: "int \<Rightarrow> string" where
  "printf_i n = (if n < 0 then CHR ''-'' # digits 10 (nat (- n)) else digits 10 (nat n))"

definition printf_x :: "int \<Rightarrow> string" where
  "printf_x n = digits 16 (nat (n mod 4294967296))"

text \<open>Rounding to the nearest integer, a tie to the even one.\<close>

definition round_half_even :: "rat \<Rightarrow> int" where
  "round_half_even x =
     (let f = \<lfloor>x\<rfloor>; d = x - of_int f in
      if d < 1 / 2 then f else if 1 / 2 < d then f + 1 else if even f then f else f + 1)"

text \<open>
  \<^verbatim>\<open>%.<p>f\<close> of a finite value: the exact value rounded to \<open>p\<close> decimals (to nearest, a
  tie to even, as the C library of the GNU system does), the sign of the value before
  it, no decimal point when \<open>p = 0\<close>.
\<close>

definition printf_f :: "nat \<Rightarrow> rat \<Rightarrow> string" where
  "printf_f p x =
     (let m = nat (round_half_even (\<bar>x\<bar> * 10 ^ p));
          frac = digits 10 (m mod 10 ^ p)
      in (if x < 0 then ''-'' else [])
         @ digits 10 (m div 10 ^ p)
         @ (if p = 0 then [] else CHR ''.'' # replicate (p - length frac) (CHR ''0'') @ frac))"

subsection \<open>striptrailingzero\<close>

text \<open>
  \<^verbatim>\<open>M_snprintf(result, sizeof(result), "%.*f", (precision == 2 ? 2 : (value !=
  floor(value))), value)\<close> into a buffer of 100 bytes, then the last character is dropped
  when the text has at least four characters, a point third from the end and a zero last.
\<close>

definition striptrailingzero :: "rat \<Rightarrow> int \<Rightarrow> string" where
  "striptrailingzero v precision =
     (let result = take 99 (printf_f (if precision = 2 then 2
                                       else if v \<noteq> of_int \<lfloor>v\<rfloor> then 1 else 0) v);
          len = length result
      in if 4 \<le> len \<and> result ! (len - 3) = CHR ''.'' \<and> result ! (len - 1) = CHR ''0''
         then butlast result else result)"

subsection \<open>Setting descriptors\<close>

text \<open>
  \<^verbatim>\<open>default_t\<close> is declared in a header that is not among the sources; its fields are the
  ones the initialiser \<^verbatim>\<open>CONFIG_VARIABLE_GENERIC\<close> and the code name. The location is the
  name of the variable the descriptor is bound to; what the variable holds is a \<open>cvalue\<close>.
\<close>

datatype default_type_t =
    DEFAULT_KEY | DEFAULT_INT | DEFAULT_INT_HEX | DEFAULT_INT_PERCENT
  | DEFAULT_FLOAT | DEFAULT_FLOAT_PERCENT | DEFAULT_STRING

datatype cvalue = IntV int | FloatV rat | StringV string

record default_t =
  name :: string
  location :: string
  dtype :: default_type_t
  untranslated :: int
  original_translated :: int
  aset :: int

subsection \<open>The value formatter of SaveDefaultCollection\<close>

text \<open>
  What both branches of \<^verbatim>\<open>case DEFAULT_KEY\<close> do with a scancode \<open>v\<close>: the alias of \<open>v\<close> in
  the set; else \<^verbatim>\<open>'%c'\<close> of \<^verbatim>\<open>scantokey[v]\<close> when that is printable; else \<^verbatim>\<open>%i\<close> of \<open>v\<close>.
  \<^verbatim>\<open>scantokey[v]\<close> is read without a check of \<open>v\<close>.
\<close>

definition emit_scancode :: "doomkeys \<Rightarrow> int \<Rightarrow> int \<Rightarrow> fault + string" where
  "emit_scancode K v s =
     (case alias_of_value aliases v s of
        Some t \<Rightarrow> Inr t
      | None \<Rightarrow>
          if 0 \<le> v \<and> v < 128 then
            (let k = scantokey K ! nat v in
             if isprint_c k then Inr [squote, char_of k, squote] else Inr (printf_i v))
          else Inl IndexOutOfBounds)"

text \<open>
  The \<^verbatim>\<open>else\<close> branch: the first scancode whose entry is the live value; when there is none
  the loop ends and nothing is written.
\<close>

definition reverse_search :: "doomkeys \<Rightarrow> int \<Rightarrow> int \<Rightarrow> fault + string" where
  "reverse_search K v s =
     (case first_index (scantokey K) v 0 of
        None \<Rightarrow> Inr []
      | Some i \<Rightarrow> emit_scancode K (int i) s)"

text \<open>
  The test \<^verbatim>\<open>if (cvars[i].untranslated && v == cvars[i].original_translated)\<close> that chooses
  between the two branches.
\<close>

datatype key_path = UntranslatedPath | ReverseSearchPath

definition key_path_of :: "default_t \<Rightarrow> int \<Rightarrow> key_path" where
  "key_path_of d v =
     (if untranslated d \<noteq> 0 \<and> v = original_translated d then UntranslatedPath
      else ReverseSearchPath)"

definition format_key :: "doomkeys \<Rightarrow> default_t \<Rightarrow> int \<Rightarrow> fault + string" where
  "format_key K d v =
     (case key_path_of d v of
        UntranslatedPath \<Rightarrow> emit_scancode K (untranslated d) (aset d)
      | ReverseSearchPath \<Rightarrow> reverse_search K v (aset d))"

text \<open>The \<^verbatim>\<open>switch (cvars[i].type)\<close> of the save loop: the text written after the name.\<close>

fun format_value :: "doomkeys \<Rightarrow> default_t \<Rightarrow> cvalue \<Rightarrow> fault + string" where
  "format_value K d (IntV v) =
     (case dtype d of
        DEFAULT_KEY \<Rightarrow> format_key K d v
      | DEFAULT_INT \<Rightarrow>
          Inr (case alias_of_value aliases v (aset d) of Some t \<Rightarrow> t | None \<Rightarrow> printf_i v)
      | DEFAULT_INT_HEX \<Rightarrow> Inr (''0x'' @ printf_x v)
      | DEFAULT_INT_PERCENT \<Rightarrow>
          Inr (case alias_of_value aliases v (aset d) of
                 Some t \<Rightarrow> t | None \<Rightarrow> printf_i v @ ''%'')
      | _ \<Rightarrow> Inl TypeMismatch)"
| "format_value K d (FloatV v) =
     (case dtype d of
        DEFAULT_FLOAT \<Rightarrow>
          Inr (case alias_of_float aliases v (aset d) of
                 Some t \<Rightarrow> t | None \<Rightarrow> striptrailingzero v 2)
      | DEFAULT_FLOAT_PERCENT \<Rightarrow>
          Inr (case alias_of_float aliases v (aset d) of
                 Some t \<Rightarrow> t | None \<Rightarrow> striptrailingzero v 1 @ ''%'')
      | _ \<Rightarrow> Inl TypeMismatch)"
| "format_value K d (StringV t) =
     (case dtype d of
        DEFAULT_STRING \<Rightarrow> Inr (dquote # t @ [dquote])
      | _ \<Rightarrow> Inl TypeMismatch)"

text \<open>One line of the file: \<^verbatim>\<open>fprintf(f, "%s ", name)\<close>, the value, \<^verbatim>\<open>fprintf(f, "\n")\<close>.\<close>

definition save_line :: "doomkeys \<Rightarrow> default_t \<Rightarrow> cvalue \<Rightarrow> fault + string" where
  "save_line K d v =
     (case format_value K d v of
        Inl e \<Rightarrow> Inl e
      | Inr t \<Rightarrow> Inr (name d @ '' '' @ t @ [newline]))"

subsection \<open>The registry and the state\<close>

text \<open>The initialiser \<^verbatim>\<open>{ #name, &variable, type, 0, 0, set }\<close> of \<^verbatim>\<open>CONFIG_VARIABLE_GENERIC\<close>.\<close>

definition CONFIG_VARIABLE_GENERIC ::
  "string \<Rightarrow> string \<Rightarrow> default_type_t \<Rightarrow> int \<Rightarrow> default_t" where
  "CONFIG_VARIABLE_GENERIC n variable t s =
     \<lparr>name = n, location = variable, dtype = t, untranslated = 0, original_translated = 0,
      aset = s\<rparr>"

text \<open>
  The state the two operations work on: the registry \<^verbatim>\<open>cvars[]\<close>, the variables the
  descriptors are bound to (by name), the flag \<^verbatim>\<open>returntowidescreen\<close>, and the calls
  \<^verbatim>\<open>C_Bind("", control, action)\<close> made so far with the two scanned tokens (the binding
  subsystem is not among the sources).
\<close>

record config_state =
  cvars :: "default_t list"
  vars :: "string \<Rightarrow> cvalue"
  returntowidescreen :: int
  bind_calls :: "(string \<times> string) list"

text \<open>
  The settings file \<^verbatim>\<open>PACKAGE_CONFIG\<close>: its text when it exists, and whether
  \<^verbatim>\<open>fopen(PACKAGE_CONFIG, "w")\<close> succeeds.
\<close>

record config_file =
  contents :: "string option"
  writable :: bool

subsection \<open>SaveDefaultCollection and M\_SaveDefaults\<close>

text \<open>The lines of the registry, in declaration order; the first fault ends the run.\<close>

fun save_lines :: "doomkeys \<Rightarrow> default_t list \<Rightarrow> (string \<Rightarrow> cvalue) \<Rightarrow> fault + string" where
  "save_lines K [] vs = Inr []"
| "save_lines K (d # ds) vs =
     (case save_line K d (vs (location d)) of
        Inl e \<Rightarrow> Inl e
      | Inr l \<Rightarrow> (case save_lines K ds vs of Inl e \<Rightarrow> Inl e | Inr ls \<Rightarrow> Inr (l @ ls)))"

text \<open>
  \<^verbatim>\<open>SaveBind\<close>. The tables \<^verbatim>\<open>controls[]\<close> (type, token, value) and \<^verbatim>\<open>actions[]\<close> (name and the
  three optional variables) belong to the binding subsystem: they are parameters, given
  without their end markers.
\<close>

datatype controltype_t = keyboard | mouse | gamepad

fun SaveBind :: "(controltype_t \<times> string \<times> int) list \<Rightarrow> string \<Rightarrow> int \<Rightarrow> controltype_t \<Rightarrow> string" where
  "SaveBind [] action v t = []"
| "SaveBind ((ct, control, cv) # cs) action v t =
     (if ct = t \<and> cv = v then
        (if length control = 1
         then ''bind '' @ [squote] @ (if control = ''='' then ''+'' else control) @ [squote]
              @ '' '' @ action @ [newline]
         else ''bind '' @ control @ '' '' @ action @ [newline])
      else SaveBind cs action v t)"

definition bind_of ::
  "(controltype_t \<times> string \<times> int) list \<Rightarrow> (string \<Rightarrow> cvalue) \<Rightarrow> string \<Rightarrow> string option
     \<Rightarrow> controltype_t \<Rightarrow> fault + string" where
  "bind_of controls vs action var t =
     (case var of
        None \<Rightarrow> Inr []
      | Some x \<Rightarrow> (case vs x of IntV v \<Rightarrow> Inr (SaveBind controls action v t) | _ \<Rightarrow> Inl TypeMismatch))"

fun save_binds ::
  "(controltype_t \<times> string \<times> int) list
     \<Rightarrow> (string \<times> string option \<times> string option \<times> string option) list
     \<Rightarrow> (string \<Rightarrow> cvalue) \<Rightarrow> fault + string" where
  "save_binds controls [] vs = Inr []"
| "save_binds controls ((action, k, m, g) # as) vs =
     (case (bind_of controls vs action k keyboard, bind_of controls vs action m mouse,
            bind_of controls vs action g gamepad, save_binds controls as vs) of
        (Inr a, Inr b, Inr c, Inr r) \<Rightarrow> Inr (a @ b @ c @ r)
      | _ \<Rightarrow> Inl TypeMismatch)"

text \<open>
  \<^verbatim>\<open>SaveDefaultCollection\<close>. It returns nothing; the result is the state and the file
  after the call. A \<^verbatim>\<open>NULL\<close> from \<^verbatim>\<open>fopen\<close> ends it at once.
\<close>

definition SaveDefaultCollection ::
  "doomkeys \<Rightarrow> (controltype_t \<times> string \<times> int) list
     \<Rightarrow> (string \<times> string option \<times> string option \<times> string option) list
     \<Rightarrow> config_state \<Rightarrow> config_file \<Rightarrow> fault + config_state \<times> config_file" where
  "SaveDefaultCollection K controls actions st f =
     (if \<not> writable f then Inr (st, f)
      else
        (case save_lines K (cvars st) (vars st) of
           Inl e \<Rightarrow> Inl e
         | Inr ls \<Rightarrow>
             (case save_binds controls actions (vars st) of
                Inl e \<Rightarrow> Inl e
              | Inr bs \<Rightarrow> Inr (st, f\<lparr>contents := Some (ls @ [newline] @ bs)\<rparr>))))"

text \<open>
  \<^verbatim>\<open>M_SaveDefaults\<close>: \<^verbatim>\<open>widescreen\<close> is set before the call and cleared after it when
  \<^verbatim>\<open>returntowidescreen\<close> is set.
\<close>

definition M_SaveDefaults ::
  "doomkeys \<Rightarrow> (controltype_t \<times> string \<times> int) list
     \<Rightarrow> (string \<times> string option \<times> string option \<times> string option) list
     \<Rightarrow> config_state \<Rightarrow> config_file \<Rightarrow> fault + config_state \<times> config_file" where
  "M_SaveDefaults K controls actions st f =
     (let st1 = (if returntowidescreen st \<noteq> 0
                 then st\<lparr>vars := (vars st)(''widescreen'' := IntV 1)\<rparr> else st)
      in case SaveDefaultCollection K controls actions st1 f of
           Inl e \<Rightarrow> Inl e
         | Inr (st2, f') \<Rightarrow>
             Inr (if returntowidescreen st2 \<noteq> 0
                  then st2\<lparr>vars := (vars st2)(''widescreen'' := IntV 0)\<rparr> else st2, f'))"

subsection \<open>The record body of LoadDefaultCollection\<close>

text \<open>
  \<^verbatim>\<open>fscanf(f, "%31s %255[^\n]\n", defname, strparm)\<close> on the input that is left: the two
  tokens when both are assigned (the call returns 2), and the input after the call.
\<close>

definition fscanf_cvar :: "string \<Rightarrow> (string \<times> string) option \<times> string" where
  "fscanf_cvar inp =
     (let i1 = dropWhile isspace_c inp;
          defname = take 31 (takeWhile (\<lambda>c. \<not> isspace_c c) i1);
          i2 = dropWhile isspace_c (drop (length defname) i1);
          strparm = take 255 (takeWhile (\<lambda>c. c \<noteq> newline) i2);
          i3 = drop (length strparm) i2
      in if defname = [] then (None, i1)
         else if strparm = [] then (None, i2)
         else (Some (defname, strparm), dropWhile isspace_c i3))"

text \<open>
  \<^verbatim>\<open>fscanf(f, "bind %31s %31[^\n]\n", control, action)\<close>, which the loop tries first. The
  literal is matched character by character, and what matched stays consumed when the
  call fails.
\<close>

fun match_literal :: "string \<Rightarrow> string \<Rightarrow> bool \<times> string" where
  "match_literal [] inp = (True, inp)"
| "match_literal (l # ls) [] = (False, [])"
| "match_literal (l # ls) (c # cs) = (if c = l then match_literal ls cs else (False, c # cs))"

definition fscanf_bind :: "string \<Rightarrow> (string \<times> string) option \<times> string" where
  "fscanf_bind inp =
     (case match_literal ''bind'' inp of
        (False, r) \<Rightarrow> (None, r)
      | (True, r) \<Rightarrow>
          (let i1 = dropWhile isspace_c r;
               control = take 31 (takeWhile (\<lambda>c. \<not> isspace_c c) i1);
               i2 = dropWhile isspace_c (drop (length control) i1);
               action = take 31 (takeWhile (\<lambda>c. c \<noteq> newline) i2);
               i3 = drop (length action) i2
           in if control = [] then (None, i1)
              else if action = [] then (None, i2)
              else (Some (control, action), dropWhile isspace_c i3)))"

text \<open>
  \<^verbatim>\<open>while (strlen(strparm) > 0 && !isprint(strparm[strlen(strparm) - 1]))
  strparm[strlen(strparm) - 1] = '\0';\<close>
\<close>

definition strip_nonprint :: "string \<Rightarrow> string" where
  "strip_nonprint strparm = rev (dropWhile (\<lambda>c. \<not> isprint_c (char_int c)) (rev strparm))"

text \<open>
  \<^verbatim>\<open>s = strdup(strparm); if (s[strlen(s) - 1] == '%') s[strlen(s) - 1] = '\0';\<close>. On the empty
  text the index is \<open>-1\<close>.
\<close>

definition strip_percent :: "string \<Rightarrow> fault + string" where
  "strip_percent strparm =
     (if strparm = [] then Inl IndexOutOfBounds
      else if last strparm = CHR ''%'' then Inr (butlast strparm) else Inr strparm)"

text \<open>\<^verbatim>\<open>(intparm >= 0 && intparm < 128 ? scantokey[intparm] : INVALIDKEY)\<close>\<close>

definition translate_key :: "doomkeys \<Rightarrow> int \<Rightarrow> int" where
  "translate_key K intparm =
     (if 0 \<le> intparm \<and> intparm < 128 then scantokey K ! nat intparm else INVALIDKEY)"

text \<open>
  \<^verbatim>\<open>case DEFAULT_STRING: s = strdup(strparm + 1); s[strlen(s) - 1] = '\0';\<close>. The copy starts
  after the first character. When the text has fewer than two characters the copy is empty
  (an empty text is what the stripping loop left, so NUL bytes follow it) and the store goes
  to index \<open>-1\<close> of the copy.
\<close>

definition load_string :: "string \<Rightarrow> fault + string" where
  "load_string strparm =
     (let s = drop 1 strparm in if s = [] then Inl IndexOutOfBounds else Inr (butlast s))"

subsection \<open>ParseFloatParameter\<close>

text \<open>
  Binary floating point, as far as \<^verbatim>\<open>(float)atof(strparm)\<close> needs it: \<open>round_binary p emin\<close>
  rounds a rational to the nearest number with \<open>p\<close> significant bits whose last bit weighs
  at least \<open>2 ^ emin\<close>, a tie to even. \<^verbatim>\<open>double\<close> is \<open>p = 53\<close>, \<open>emin = -1074\<close>; \<^verbatim>\<open>float\<close> is
  \<open>p = 24\<close>, \<open>emin = -149\<close>. A result beyond the largest \<^verbatim>\<open>float\<close> would be an infinity.
\<close>

definition pow2 :: "int \<Rightarrow> rat" where
  "pow2 e = (if 0 \<le> e then 2 ^ nat e else 1 / 2 ^ nat (- e))"

definition ilog2 :: "rat \<Rightarrow> int" where
  "ilog2 x =
     (let (a, b) = quotient_of x;
          e = int (floorlog 2 (nat a)) - int (floorlog 2 (nat b))
      in if pow2 e \<le> x then e else e - 1)"

definition round_binary :: "nat \<Rightarrow> int \<Rightarrow> rat \<Rightarrow> rat" where
  "round_binary p emin x =
     (if x = 0 then 0
      else let e = max (ilog2 \<bar>x\<bar> - int p + 1) emin
           in of_int (round_half_even (x / pow2 e)) * pow2 e)"

definition FLT_MAX :: rat where
  "FLT_MAX = (2 ^ 24 - 1) * 2 ^ 104"

definition to_float :: "rat \<Rightarrow> fault + rat" where
  "to_float x =
     (let y = round_binary 24 (- 149) x in if \<bar>y\<bar> \<le> FLT_MAX then Inr y else Inl NotModelled)"

definition double_to_float :: "rat \<Rightarrow> fault + rat" where
  "double_to_float x = to_float (round_binary 53 (- 1074) x)"

text \<open>
  \<^verbatim>\<open>atof\<close> on decimal text: white space, a sign, digits with an optional fraction; \<open>0\<close> when
  no number starts the text. \<open>None\<close> marks the forms the model leaves out: an exponent, a
  hexadecimal number, an infinity or a NaN. The value is exact; the rounding to \<^verbatim>\<open>double\<close>
  is in \<open>double_to_float\<close>.
\<close>

definition atof :: "string \<Rightarrow> rat option" where
  "atof s =
     (let (neg, t) = scan_sign (dropWhile isspace_c s);
          ip = takeWhile (is_digit 10) t;
          r = drop (length ip) t;
          fp = (case r of [] \<Rightarrow> [] | c # q \<Rightarrow> if c = CHR ''.'' then takeWhile (is_digit 10) q else []);
          r' = (case r of [] \<Rightarrow> [] | c # q \<Rightarrow> if c = CHR ''.'' then drop (length fp) q else r)
      in if ip = [] \<and> fp = [] then
           (case t of
              [] \<Rightarrow> Some 0
            | c # q \<Rightarrow> if c \<in> set ''iInN'' then None else Some 0)
         else if (case r' of [] \<Rightarrow> False | c # q \<Rightarrow> c \<in> set ''eExX'') then None
         else Some ((if neg then - 1 else 1) * of_nat (digits_value 10 (ip @ fp))
                      / 10 ^ length fp))"

definition ParseFloatParameter :: "string \<Rightarrow> int \<Rightarrow> fault + rat" where
  "ParseFloatParameter strparm s =
     (case alias_of_text aliases strparm s of
        Some v \<Rightarrow> to_float (of_int v)
      | None \<Rightarrow> (case atof strparm of None \<Rightarrow> Inl NotModelled | Some x \<Rightarrow> double_to_float x))"

subsection \<open>The switch of LoadDefaultCollection\<close>

text \<open>
  What the \<^verbatim>\<open>switch (cvars[i].type)\<close> does to the descriptor found and to the variable it
  is bound to, given the value text \<open>strparm\<close>. In \<^verbatim>\<open>case DEFAULT_FLOAT_PERCENT\<close> the copy
  \<open>s\<close> loses its percent sign but it is \<open>strparm\<close> that is parsed.
\<close>

definition load_value :: "doomkeys \<Rightarrow> default_t \<Rightarrow> string \<Rightarrow> fault + default_t \<times> cvalue" where
  "load_value K d strparm =
     (case dtype d of
        DEFAULT_STRING \<Rightarrow>
          (case load_string strparm of Inl e \<Rightarrow> Inl e | Inr s \<Rightarrow> Inr (d, StringV s))
      | DEFAULT_INT \<Rightarrow>
          (case ParseIntParameter K strparm (aset d) of
             Inl e \<Rightarrow> Inl e | Inr n \<Rightarrow> Inr (d, IntV n))
      | DEFAULT_INT_HEX \<Rightarrow>
          (case ParseIntParameter K strparm (aset d) of
             Inl e \<Rightarrow> Inl e | Inr n \<Rightarrow> Inr (d, IntV n))
      | DEFAULT_INT_PERCENT \<Rightarrow>
          (case strip_percent strparm of
             Inl e \<Rightarrow> Inl e
           | Inr s \<Rightarrow>
               (case ParseIntParameter K s (aset d) of
                  Inl e \<Rightarrow> Inl e | Inr n \<Rightarrow> Inr (d, IntV n)))
      | DEFAULT_KEY \<Rightarrow>
          (case ParseIntParameter K strparm (aset d) of
             Inl e \<Rightarrow> Inl e
           | Inr intparm \<Rightarrow>
               Inr (d\<lparr>untranslated := intparm,
                       original_translated := translate_key K intparm\<rparr>,
                    IntV (translate_key K intparm)))
      | DEFAULT_FLOAT \<Rightarrow>
          (case ParseFloatParameter strparm (aset d) of
             Inl e \<Rightarrow> Inl e | Inr x \<Rightarrow> Inr (d, FloatV x))
      | DEFAULT_FLOAT_PERCENT \<Rightarrow>
          (case strip_percent strparm of
             Inl e \<Rightarrow> Inl e
           | Inr s \<Rightarrow>
               (case ParseFloatParameter strparm (aset d) of
                  Inl e \<Rightarrow> Inl e | Inr x \<Rightarrow> Inr (d, FloatV x))))"

text \<open>
  The loop \<^verbatim>\<open>for (i = 0; i < arrlen(cvars); ++i)\<close>: the first descriptor whose name is
  \<open>defname\<close> is loaded and the loop ends; when there is none nothing changes.
\<close>

fun load_cvar ::
  "doomkeys \<Rightarrow> default_t list \<Rightarrow> string \<Rightarrow> string \<Rightarrow> (string \<Rightarrow> cvalue)
     \<Rightarrow> fault + default_t list \<times> (string \<Rightarrow> cvalue)" where
  "load_cvar K [] defname strparm vs = Inr ([], vs)"
| "load_cvar K (d # ds) defname strparm vs =
     (if name d \<noteq> defname then
        (case load_cvar K ds defname strparm vs of
           Inl e \<Rightarrow> Inl e
         | Inr (ds', vs') \<Rightarrow> Inr (d # ds', vs'))
      else
        (case load_value K d strparm of
           Inl e \<Rightarrow> Inl e
         | Inr (d', v) \<Rightarrow> Inr (d' # ds, vs(location d := v))))"

text \<open>
  One turn of the loop \<^verbatim>\<open>while (!feof(f))\<close> on the input that is left: a \<^verbatim>\<open>bind\<close> record
  goes to \<^verbatim>\<open>C_Bind\<close>; otherwise a setting record is scanned, its value text stripped of
  trailing non-printable characters, and the setting loaded. The result is the state and
  the input after the turn.
\<close>

definition load_turn :: "doomkeys \<Rightarrow> string \<Rightarrow> config_state \<Rightarrow> fault + config_state \<times> string" where
  "load_turn K inp st =
     (case fscanf_bind inp of
        (Some (control, action), rest) \<Rightarrow>
          Inr (st\<lparr>bind_calls := bind_calls st @ [(control, action)]\<rparr>, rest)
      | (None, inp1) \<Rightarrow>
          (case fscanf_cvar inp1 of
             (None, rest) \<Rightarrow> Inr (st, rest)
           | (Some (defname, strparm), rest) \<Rightarrow>
               (case load_cvar K (cvars st) defname (strip_nonprint strparm) (vars st) of
                  Inl e \<Rightarrow> Inl e
                | Inr (ds, vs) \<Rightarrow> Inr (st\<lparr>cvars := ds, vars := vs\<rparr>, rest))))"

subsection \<open>Concrete inputs\<close>

text \<open>
  A valuation of the key codes and two states, used where a statement is evaluated at a
  concrete input.
\<close>

definition sample_keys :: doomkeys where
  "sample_keys =
     \<lparr>KEY_BACKSPACE = 127, KEY_RCTRL = 157, KEY_TILDE = 96, KEY_RSHIFT = 182,
      KEYP_MULTIPLY = 42, KEY_RALT = 184, KEY_CAPSLOCK = 186, KEY_PAUSE = 255,
      KEY_SCRLCK = 198, KEY_HOME = 199, KEY_UPARROW = 173, KEY_PGUP = 201, KEY_MINUS = 45,
      KEY_LEFTARROW = 172, KEYP_5 = 53, KEY_RIGHTARROW = 174, KEYP_PLUS = 43, KEY_END = 207,
      KEY_DOWNARROW = 175, KEY_PGDN = 209, KEY_INS = 210, KEY_DEL = 211\<rparr>"

definition no_vars :: "string \<Rightarrow> cvalue" where
  "no_vars x = IntV 0"

definition key_fire :: "int \<Rightarrow> int \<Rightarrow> int \<Rightarrow> default_t" where
  "key_fire u t s =
     \<lparr>name = ''key_fire'', location = ''key_fire'', dtype = DEFAULT_KEY, untranslated = u,
      original_translated = t, aset = s\<rparr>"

section \<open>Properties\<close>

subsection \<open>C8: the volume rescale\<close>

lemma BETWEEN_bounds: "a \<le> c \<Longrightarrow> a \<le> BETWEEN a b c \<and> BETWEEN a b c \<le> c"
  by (simp add: BETWEEN_def)

lemma percent_to_volume_ok:
  assumes "vmin \<le> vmax" "- 1000000 \<le> vmin" "vmax \<le> 1000000"
  shows "percent_to_volume vmin p vmax = Inr (c_div (BETWEEN vmin p vmax * 15 + 50) 100)"
proof -
  have "vmin \<le> BETWEEN vmin p vmax \<and> BETWEEN vmin p vmax \<le> vmax"
    using assms(1) by (rule BETWEEN_bounds)
  then have "int32 (BETWEEN vmin p vmax * 15) \<and> int32 (BETWEEN vmin p vmax * 15 + 50)"
    using assms(2,3) by (simp add: int32_def)
  then show ?thesis
    by (simp add: percent_to_volume_def Let_def)
qed

text \<open>
  C8. After the sanitization pass the raw music volume is
  \<open>(clamp(p, MIN, MAX) * 15 + 50) / 100\<close> in exact integer arithmetic, for every loaded
  percent value \<open>p\<close>; a loaded 50 that lies within the range gives \<open>(50 * 15 + 50) / 100 = 8\<close>.
  The bounds are parameters; the statement holds for every pair of bounds that is ordered
  and small enough for the product to fit an \<^verbatim>\<open>int\<close> (a percent range is).
\<close>

theorem C8_music_volume_rescale:
  assumes "music_min \<le> music_max" "- 1000000 \<le> music_min" "music_max \<le> 1000000"
    and "sfx_min \<le> sfx_max" "- 1000000 \<le> sfx_min" "sfx_max \<le> 1000000"
  shows "\<exists>v'. M_CheckDefaults_volumes music_min music_max sfx_min sfx_max v = Inr v'
           \<and> musicVolume v' =
               c_div (max music_min (min (musicvolume_percent v) music_max) * 15 + 50) 100
           \<and> (0 \<le> music_min \<longrightarrow> musicVolume v' =
               (max music_min (min (musicvolume_percent v) music_max) * 15 + 50) div 100)
           \<and> (music_min \<le> 50 \<and> 50 \<le> music_max \<and> musicvolume_percent v = 50
                \<longrightarrow> musicVolume v' = (50 * 15 + 50) div 100 \<and> musicVolume v' = 8)
           \<and> musicvolume_percent v' = musicvolume_percent v"
proof -
  let ?c = "max music_min (min (musicvolume_percent v) music_max)"
  have m: "percent_to_volume music_min (musicvolume_percent v) music_max
             = Inr (c_div (?c * 15 + 50) 100)"
    using percent_to_volume_ok [OF assms(1,2,3)] by (simp add: BETWEEN_def)
  have s: "percent_to_volume sfx_min (sfxvolume_percent v) sfx_max
             = Inr (c_div (BETWEEN sfx_min (sfxvolume_percent v) sfx_max * 15 + 50) 100)"
    using percent_to_volume_ok [OF assms(4,5,6)] .
  have pos: "0 \<le> music_min \<Longrightarrow> c_div (?c * 15 + 50) 100 = (?c * 15 + 50) div 100"
    by (simp add: c_div_def sgn_if)
  have fifty: "music_min \<le> 50 \<Longrightarrow> 50 \<le> music_max \<Longrightarrow> musicvolume_percent v = 50
                 \<Longrightarrow> c_div (?c * 15 + 50) 100 = 8"
    by (simp add: c_div_def)
  show ?thesis
    using pos fifty by (simp add: M_CheckDefaults_volumes_def m s)
qed

theorem C8_music_volume_rescale_witness:
  "\<exists>v'. M_CheckDefaults_volumes 0 100 0 100
          \<lparr>musicvolume_percent = 50, sfxvolume_percent = 250, musicVolume = 0, sfxVolume = 0\<rparr>
           = Inr v' \<and> musicVolume v' = 8 \<and> musicvolume_percent v' = 50"
  using C8_music_volume_rescale [of 0 100 0 100
          "\<lparr>musicvolume_percent = 50, sfxvolume_percent = 250, musicVolume = 0, sfxVolume = 0\<rparr>"]
  by auto


subsection \<open>Digits\<close>

declare digits.simps [simp del]

lemma digits_lt: "n < b \<Longrightarrow> digits b n = [digit_char n]"
  by (subst digits.simps) simp

lemma digits_ge:
  "2 \<le> b \<Longrightarrow> b \<le> n \<Longrightarrow> digits b n = digits b (n div b) @ [digit_char (n mod b)]"
  by (subst digits.simps) simp

lemma digits_nonempty: "digits b n \<noteq> []"
  by (subst digits.simps) simp

lemma digit_of_digit_char: "d < 16 \<Longrightarrow> digit_of (digit_char d) = Some d"
  by (auto simp: digit_of_def digit_char_def Let_def)

lemma is_digit_digit_char: "d < b \<Longrightarrow> b \<le> 16 \<Longrightarrow> is_digit b (digit_char d)"
  by (simp add: is_digit_def digit_of_digit_char)

lemma digits_all_digits:
  "2 \<le> b \<Longrightarrow> b \<le> 16 \<Longrightarrow> c \<in> set (digits b n) \<Longrightarrow> is_digit b c"
proof (induction b n rule: digits.induct)
  case (1 b n)
  show ?case
  proof (cases "n < b")
    case True
    with 1 show ?thesis by (auto simp: digits_lt is_digit_digit_char)
  next
    case False
    with 1 show ?thesis by (auto simp: digits_ge is_digit_digit_char)
  qed
qed

lemma digits_value_snoc:
  "digits_value b (ds @ [c]) = digits_value b ds * b + (case digit_of c of Some d \<Rightarrow> d | None \<Rightarrow> 0)"
  by (simp add: digits_value_def)

lemma digits_value_digits: "2 \<le> b \<Longrightarrow> b \<le> 16 \<Longrightarrow> digits_value b (digits b n) = n"
proof (induction b n rule: digits.induct)
  case (1 b n)
  show ?case
  proof (cases "n < b")
    case True
    with 1 show ?thesis by (simp add: digits_lt digits_value_def digit_of_digit_char)
  next
    case False
    with 1 have "digits_value b (digits b (n div b)) = n div b" by simp
    moreover have "n mod b < 16" using 1(2,3) by (meson less_le_trans mod_less_divisor not_less pos2)
    ultimately show ?thesis using 1(2,3) False
      by (simp add: digits_ge digits_value_snoc digit_of_digit_char)
  qed
qed

lemma length_digits: "2 \<le> b \<Longrightarrow> n < b ^ k \<Longrightarrow> 0 < k \<Longrightarrow> length (digits b n) \<le> k"
proof (induction b n arbitrary: k rule: digits.induct)
  case (1 b n)
  show ?case
  proof (cases "n < b")
    case True
    with 1 show ?thesis by (simp add: digits_lt)
  next
    case False
    then have "b \<le> n" by simp
    with 1(3) have k1: "1 < k"
      by (metis One_nat_def Suc_lessI "1.prems"(3) not_less power_one_right)
    then obtain j where j: "k = Suc j" "0 < j" by (cases k) auto
    have "n div b < b ^ j"
      using 1(3) j 1(2) by (simp add: less_mult_imp_div_less mult.commute)
    with 1 False j have "length (digits b (n div b)) \<le> j" by simp
    with 1(2) False j show ?thesis by (simp add: digits_ge)
  qed
qed

lemma hd_digits: "2 \<le> b \<Longrightarrow> b \<le> 16 \<Longrightarrow> 0 < n \<Longrightarrow> hd (digits b n) \<noteq> CHR ''0''"
proof (induction b n rule: digits.induct)
  case (1 b n)
  show ?case
  proof (cases "n < b")
    case True
    with 1 have "digit_of (digit_char n) = Some n" by (simp add: digit_of_digit_char)
    moreover have "digit_of (CHR ''0'') = Some 0" by (simp add: digit_of_def)
    ultimately show ?thesis using 1(4) True by (auto simp: digits_lt)
  next
    case False
    then have "0 < n div b" using 1(2) by (simp add: div_greater_zero_iff)
    with 1 False have "hd (digits b (n div b)) \<noteq> CHR ''0''" by simp
    with 1(2) False show ?thesis by (simp add: digits_ge digits_nonempty)
  qed
qed

subsection \<open>Evaluating the tables\<close>

lemmas alias_eval =
  aliases_def A_def strcasecmp_eq_def squote_def dquote_def char_int_def tolower_c_def

lemmas scan_eval =
  quoted_key_def squote_def scan_number_def sscanf_i_def sscanf_x_def skip_0x_def scan_sign_def
  isspace_c_def scan_digits_def is_digit_def digit_of_def digits_value_def signed_def int32_def

lemma alias_of_text_abc: "alias_of_text aliases ''abc'' s = None"
  by (simp add: alias_eval)


lemma alias_of_text_none_3: "alias_of_text aliases ''none'' 3 = Some 0"
  by (simp add: alias_eval)


lemma alias_of_value_200_0: "alias_of_value aliases 200 0 = None"
  by (simp add: aliases_def A_def)

lemma alias_of_value_30_3: "alias_of_value aliases 30 3 = None"
  by (simp add: aliases_def A_def)

lemma scantokey_0: "scantokey K ! 0 = 0"
  by (simp add: scantokey_def)

lemma scantokey_30: "scantokey K ! 30 = 97"
  by (simp add: scantokey_def char_int_def)



subsection \<open>C3: the numeric renderer\<close>

lemma digit_char_eval:
  "digit_char 0 = CHR ''0''" "digit_char 1 = CHR ''1''" "digit_char 2 = CHR ''2''"
  "digit_char 3 = CHR ''3''" "digit_char 4 = CHR ''4''" "digit_char 5 = CHR ''5''"
  "digit_char 6 = CHR ''6''" "digit_char 7 = CHR ''7''" "digit_char 8 = CHR ''8''"
  "digit_char 9 = CHR ''9''" "digit_char 10 = CHR ''a''" "digit_char 11 = CHR ''b''"
  "digit_char 12 = CHR ''c''" "digit_char 13 = CHR ''d''" "digit_char 14 = CHR ''e''"
  "digit_char 15 = CHR ''f''" "digit_char (Suc 0) = CHR ''1''"
  by (simp_all add: digit_char_def char_of_def bit_Suc_0_iff)

lemma is_digit_not_point: "is_digit 10 c \<Longrightarrow> c \<noteq> CHR ''.''"
  by (auto simp: is_digit_def digit_of_def)

lemma is_digit_not_minus: "is_digit 10 c \<Longrightarrow> c \<noteq> CHR ''-''"
  by (auto simp: is_digit_def digit_of_def)

lemma printf_i_no_point: "c \<in> set (printf_i n) \<Longrightarrow> c \<noteq> CHR ''.''"
  using digits_all_digits [of 10 c] is_digit_not_point [of c]
  by (auto simp: printf_i_def split: if_splits)

lemma round_half_even_of_int: "round_half_even (of_int n) = n"
  by (simp add: round_half_even_def)

lemma printf_f_0_of_int: "printf_f 0 (of_int n) = printf_i n"
proof -
  have "\<bar>(of_int n :: rat)\<bar> = of_int \<bar>n\<bar>" by simp
  then have "round_half_even (\<bar>of_int n\<bar> * 10 ^ 0) = \<bar>n\<bar>"
    by (simp add: round_half_even_of_int del: of_int_abs)
  then show ?thesis
    by (simp add: printf_f_def printf_i_def Let_def)
qed

lemma length_printf_i: "\<bar>n\<bar> < 10 ^ k \<Longrightarrow> 0 < k \<Longrightarrow> length (printf_i n) \<le> Suc k"
proof -
  assume a: "\<bar>n\<bar> < 10 ^ k" "0 < k"
  then have "nat \<bar>n\<bar> < 10 ^ k"
    by (metis nat_less_iff abs_ge_zero of_nat_numeral of_nat_power)
  then have "length (digits 10 (nat \<bar>n\<bar>)) \<le> k"
    using a(2) by (simp add: length_digits)
  then show ?thesis
    by (auto simp: printf_i_def abs_if split: if_splits)
qed

lemma strip_rule:
  "striptrailingzero v precision =
     (let r = take 99 (printf_f (if precision = 2 then 2 else if v \<noteq> of_int \<lfloor>v\<rfloor> then 1 else 0) v)
      in if 4 \<le> length r \<and> r ! (length r - 3) = CHR ''.'' \<and> last r = CHR ''0''
         then butlast r else r)"
proof -
  define r where
    "r = take 99 (printf_f (if precision = 2 then 2 else if v \<noteq> of_int \<lfloor>v\<rfloor> then 1 else 0) v)"
  have d: "striptrailingzero v precision =
      (if 4 \<le> length r \<and> r ! (length r - 3) = CHR ''.'' \<and> r ! (length r - 1) = CHR ''0''
       then butlast r else r)"
    unfolding striptrailingzero_def Let_def r_def ..
  have "4 \<le> length r \<Longrightarrow> r ! (length r - 1) = last r"
    by (cases "r = []") (simp_all add: last_conv_nth)
  then have "striptrailingzero v precision =
      (if 4 \<le> length r \<and> r ! (length r - 3) = CHR ''.'' \<and> last r = CHR ''0''
       then butlast r else r)"
    unfolding d by auto
  then show ?thesis
    unfolding Let_def r_def .
qed

lemma strip_integral:
  assumes "precision \<noteq> 2" "\<bar>n\<bar> < 10 ^ 98"
  shows "striptrailingzero (of_int n) precision = printf_i n"
proof -
  have l: "length (printf_i n) \<le> 99"
    using length_printf_i [of n 98] assms(2) by simp
  have "printf_i n ! (length (printf_i n) - 3) \<noteq> CHR ''.''" if "4 \<le> length (printf_i n)"
    using that printf_i_no_point [of "printf_i n ! (length (printf_i n) - 3)" n]
    by (simp add: nth_mem)
  then show ?thesis
    using assms(1) l by (auto simp: striptrailingzero_def Let_def printf_f_0_of_int)
qed

lemma strip_1_5: "striptrailingzero (3 / 2) 2 = ''1.5''"
  by code_simp

lemma strip_2_0: "striptrailingzero 2 2 = ''2.0''"
  by code_simp

lemma strip_096_p1: "striptrailingzero (96 / 100) 1 = ''1.0''"
  by code_simp

text \<open>
  C3 as stated: with precision class 2 the renderer gives \<^verbatim>\<open>2\<close> for 2.0. It gives
  \<^verbatim>\<open>2.0\<close>: \<^verbatim>\<open>%.2f\<close> prints \<^verbatim>\<open>2.00\<close> and one character is dropped.
\<close>

theorem C3_counterexample: "striptrailingzero 2 2 = ''2.0'' \<and> striptrailingzero 2 2 \<noteq> ''2''"
  by (simp add: strip_2_0)

text \<open>
  C3 as amended: with precision class 2 the renderer gives \<^verbatim>\<open>1.5\<close> for 1.5 and \<^verbatim>\<open>2.0\<close> for
  2.0; in general the last character of the rendered text is dropped exactly when the text
  has at least four characters, a point third from the end and a zero last, and the text
  is left as it is otherwise; with a precision class other than 2 an integral value is
  rendered with zero decimals, as its decimal integer, without a point.
\<close>

theorem C3_striptrailingzero:
  "striptrailingzero (3 / 2) 2 = ''1.5''
   \<and> striptrailingzero 2 2 = ''2.0''
   \<and> striptrailingzero v precision =
       (let r = take 99 (printf_f (if precision = 2 then 2
                                   else if v \<noteq> of_int \<lfloor>v\<rfloor> then 1 else 0) v)
        in if 4 \<le> length r \<and> r ! (length r - 3) = CHR ''.'' \<and> last r = CHR ''0''
           then butlast r else r)
   \<and> (precision \<noteq> 2 \<and> \<bar>n\<bar> < 10 ^ 98 \<longrightarrow>
         striptrailingzero (of_int n) precision = printf_i n
         \<and> CHR ''.'' \<notin> set (striptrailingzero (of_int n) precision))"
  using strip_1_5 strip_2_0 strip_rule [of v precision] strip_integral [of precision n]
    printf_i_no_point [of "CHR ''.''" n]
  by auto

theorem C3_striptrailingzero_witness:
  "striptrailingzero 7 1 = ''7'' \<and> striptrailingzero (- 12) 0 = ''-12''
   \<and> striptrailingzero (3 / 2) 2 = ''1.5''"
  using C3_striptrailingzero [of "3 / 2" 1 7] C3_striptrailingzero [of "3 / 2" 0 "- 12"]
  by (simp add: printf_i_def digits.simps digit_char_eval)

subsection \<open>C4: a text that is no number\<close>

text \<open>
  C4 says that the integer parser returns 0 when the text is no alias, no quoted key and
  no number. On such a text (\<^verbatim>\<open>abc\<close>, in any alias set) \<^verbatim>\<open>sscanf\<close> assigns nothing and
  \<^verbatim>\<open>return parm;\<close> reads the local \<^verbatim>\<open>parm\<close>, which was declared without an initialiser:
  the function returns an indeterminate value, not 0.
\<close>

theorem C4_parse_failure_reads_uninitialised:
  "ParseIntParameter K ''abc'' s = Inl UninitialisedRead"
  by (simp add: ParseIntParameter_def alias_of_text_abc scan_eval)

subsection \<open>C5: the two paths of the key formatter\<close>

text \<open>
  C5 as stated: the untranslated path is taken exactly when the live value equals
  \<open>original_translated\<close>. It fails for a key that was loaded from the text \<^verbatim>\<open>none\<close>
  (alias set 3): the load records scancode 0, the live value 0 equals
  \<open>original_translated\<close>, and the save takes the reverse search.
\<close>

theorem C5_counterexample:
  "load_value sample_keys (key_fire 0 0 3) ''none'' = Inr (key_fire 0 0 3, IntV 0)
   \<and> original_translated (key_fire 0 0 3) = 0
   \<and> key_path_of (key_fire 0 0 3) 0 = ReverseSearchPath"
  by (simp add: load_value_def key_fire_def ParseIntParameter_def alias_of_text_none_3
      translate_key_def scantokey_0 key_path_of_def)

text \<open>
  C5 as amended: the untranslated path is taken exactly when \<open>untranslated\<close> is not zero
  and the live value equals \<open>original_translated\<close>; on that path the text is the alias of
  \<open>untranslated\<close> in the set, else the quoted character when the scancode translates to
  a printable one, else the scancode in decimal, and the reverse search is not used; in
  every other case the reverse search is used.
\<close>

theorem C5_key_paths:
  "(key_path_of d v = UntranslatedPath \<longleftrightarrow> untranslated d \<noteq> 0 \<and> v = original_translated d)
   \<and> (key_path_of d v = ReverseSearchPath \<longleftrightarrow> \<not> (untranslated d \<noteq> 0 \<and> v = original_translated d))
   \<and> (untranslated d \<noteq> 0 \<and> v = original_translated d \<longrightarrow>
        format_key K d v = emit_scancode K (untranslated d) (aset d))
   \<and> (\<not> (untranslated d \<noteq> 0 \<and> v = original_translated d) \<longrightarrow>
        format_key K d v = reverse_search K v (aset d))
   \<and> (alias_of_value aliases u s = Some t \<longrightarrow> emit_scancode K u s = Inr t)
   \<and> (alias_of_value aliases u s = None \<and> 0 \<le> u \<and> u < 128 \<and> isprint_c (scantokey K ! nat u) \<longrightarrow>
        emit_scancode K u s = Inr [squote, char_of (scantokey K ! nat u), squote])
   \<and> (alias_of_value aliases u s = None \<and> 0 \<le> u \<and> u < 128 \<and> \<not> isprint_c (scantokey K ! nat u) \<longrightarrow>
        emit_scancode K u s = Inr (printf_i u))"
  by (simp add: key_path_of_def format_key_def emit_scancode_def)

theorem C5_key_paths_witness:
  "key_path_of (key_fire 30 97 3) 97 = UntranslatedPath
   \<and> format_key sample_keys (key_fire 30 97 3) 97 = Inr [squote, CHR ''a'', squote]
   \<and> key_path_of (key_fire 30 97 3) 98 = ReverseSearchPath
   \<and> key_path_of (key_fire 0 0 3) 0 = ReverseSearchPath"
  using C5_key_paths [of "key_fire 30 97 3" 97 sample_keys 30 3 "[]"]
    C5_key_paths [of "key_fire 30 97 3" 98 sample_keys 30 3 "[]"]
    C5_key_paths [of "key_fire 0 0 3" 0 sample_keys 30 3 "[]"]
  by (simp add: key_fire_def alias_of_value_30_3 scantokey_30 isprint_c_def char_of_def)

subsection \<open>C6: loading a key\<close>



subsection \<open>Alias lookups\<close>

text \<open>
  The key under which \<^verbatim>\<open>strcasecmp\<close> and the set comparison find an entry, and the part of a
  table that the scans reach.
\<close>

definition lower_text :: "string \<Rightarrow> int list" where
  "lower_text t = map (\<lambda>c. tolower_c (char_int c)) t"

definition alias_key :: "alias_t \<Rightarrow> int \<times> int list" where
  "alias_key a = (alias_set a, lower_text (alias_text a))"

definition live :: "alias_t list \<Rightarrow> alias_t list" where
  "live as = takeWhile (\<lambda>a. alias_text a \<noteq> []) as"

lemma live_simps:
  "live [] = []"
  "live (a # as) = (if alias_text a = [] then [] else a # live as)"
  by (simp_all add: live_def)

lemma strcasecmp_eq_lower: "strcasecmp_eq s t \<longleftrightarrow> lower_text s = lower_text t"
  by (simp add: strcasecmp_eq_def lower_text_def)

lemma alias_of_value_mem:
  "alias_of_value as v s = Some t
     \<Longrightarrow> \<exists>b \<in> set (live as). alias_text b = t \<and> alias_value b = v \<and> alias_set b = s"
  by (induction as) (auto simp: live_simps split: if_splits)

lemma alias_of_value_first:
  "alias_of_value as v s = Some t
     \<Longrightarrow> \<exists>pre b post. as = pre @ b # post \<and> alias_text b = t \<and> alias_value b = v
           \<and> alias_set b = s
           \<and> (\<forall>c \<in> set pre. alias_text c \<noteq> [] \<and> \<not> (alias_value c = v \<and> alias_set c = s))"
proof (induction as)
  case Nil
  then show ?case by simp
next
  case (Cons a as)
  show ?case
  proof (cases "v = alias_value a \<and> s = alias_set a")
    case True
    with Cons.prems have "a # as = [] @ a # as \<and> alias_text a = t"
      by (auto split: if_splits)
    with True show ?thesis by fastforce
  next
    case False
    with Cons.prems have ne: "alias_text a \<noteq> []" and r: "alias_of_value as v s = Some t"
      by (auto split: if_splits)
    from Cons.IH [OF r] obtain pre b post where
      p: "as = pre @ b # post" "alias_text b = t" "alias_value b = v" "alias_set b = s"
        "\<forall>c \<in> set pre. alias_text c \<noteq> [] \<and> \<not> (alias_value c = v \<and> alias_set c = s)"
      by blast
    have "a # as = (a # pre) @ b # post" using p(1) by simp
    moreover have "\<forall>c \<in> set (a # pre). alias_text c \<noteq> [] \<and> \<not> (alias_value c = v \<and> alias_set c = s)"
      using p(5) ne False by auto
    ultimately show ?thesis using p(2,3,4) by blast
  qed
qed

lemma alias_of_value_total:
  "b \<in> set (live as) \<Longrightarrow> \<exists>t. alias_of_value as (alias_value b) (alias_set b) = Some t"
  by (induction as) (auto simp: live_simps split: if_splits)

lemma alias_roundtrip_gen:
  "distinct (map alias_key (live as)) \<Longrightarrow> alias_of_value as v s = Some t
     \<Longrightarrow> alias_of_text as t s = Some v"
proof (induction as)
  case Nil
  then show ?case by simp
next
  case (Cons a as)
  from Cons.prems(2) have ne: "alias_text a \<noteq> []"
    by (auto split: if_splits)
  show ?case
  proof (cases "v = alias_value a \<and> s = alias_set a")
    case True
    with Cons.prems(2) ne have "t = alias_text a" by simp
    with True ne show ?thesis by (simp add: strcasecmp_eq_lower)
  next
    case False
    with Cons.prems(2) ne have r: "alias_of_value as v s = Some t" by auto
    from Cons.prems(1) ne have d: "distinct (map alias_key (live as))"
      and n: "alias_key a \<notin> alias_key ` set (live as)"
      by (auto simp: live_simps)
    from alias_of_value_mem [OF r] obtain b where
      b: "b \<in> set (live as)" "alias_text b = t" "alias_set b = s" by blast
    have "\<not> (strcasecmp_eq t (alias_text a) \<and> s = alias_set a)"
    proof
      assume "strcasecmp_eq t (alias_text a) \<and> s = alias_set a"
      then have "alias_key a = alias_key b"
        using b(2,3) by (simp add: alias_key_def strcasecmp_eq_lower)
      with n b(1) show False by blast
    qed
    with Cons.IH [OF d r] ne show ?thesis by auto
  qed
qed

lemma alias_of_text_cong:
  "lower_text s1 = lower_text s2 \<Longrightarrow> alias_of_text as s1 s = alias_of_text as s2 s"
  by (induction as) (auto simp: strcasecmp_eq_lower)

lemma live_aliases: "live aliases = butlast aliases"
  by (simp add: live_def aliases_def A_def squote_def dquote_def)

lemma last_aliases: "alias_text (last aliases) = []"
  by (simp add: aliases_def A_def)

lemma aliases_distinct: "distinct (map alias_key (butlast aliases))"
  by (simp add: aliases_def A_def alias_key_def lower_text_def squote_def dquote_def char_int_def tolower_c_def)

lemma aliases_no_percent: "list_all (\<lambda>a. last (alias_text a) \<noteq> CHR ''%'') (butlast aliases)"
  by (simp add: aliases_def A_def squote_def dquote_def)

lemma live_aliases_mem: "a \<in> set aliases \<Longrightarrow> alias_text a \<noteq> [] \<Longrightarrow> a \<in> set (live aliases)"
proof -
  assume a: "a \<in> set aliases" "alias_text a \<noteq> []"
  have "aliases \<noteq> []" by (simp add: aliases_def)
  then have "aliases = butlast aliases @ [last aliases]" by simp
  then have "a \<in> set (butlast aliases) \<or> a = last aliases"
    using a(1) by (metis Un_iff empty_iff empty_set insert_iff list.set(2) set_append)
  with a(2) last_aliases show ?thesis by (auto simp: live_aliases)
qed


lemma aliases_literal:
  "list_all (\<lambda>a. alias_text a = printf_i (alias_value a)
                 \<longrightarrow> alias_set a = 1 \<and> (alias_value a = 0 \<or> alias_value a = 1))
     (butlast aliases)"
  by (simp add: aliases_def A_def squote_def dquote_def printf_i_def digits.simps digit_char_eval)

lemma alias_of_value_0_1: "alias_of_value aliases 0 1 = Some ''off''"
  by (simp add: aliases_def A_def)

lemma alias_of_value_1_1: "alias_of_value aliases 1 1 = Some ''on''"
  by (simp add: aliases_def A_def)

lemma alias_not_literal:
  assumes "alias_of_value aliases v s = Some t"
  shows "t \<noteq> printf_i v"
proof
  assume e: "t = printf_i v"
  from alias_of_value_mem [OF assms] obtain b where
    b: "b \<in> set (butlast aliases)" "alias_text b = t" "alias_value b = v" "alias_set b = s"
    by (auto simp: live_aliases)
  with aliases_literal e have "s = 1 \<and> (v = 0 \<or> v = 1)"
    by (auto simp: list_all_iff)
  with assms have "t = ''off'' \<or> t = ''on''"
    using alias_of_value_0_1 alias_of_value_1_1 by auto
  with e \<open>s = 1 \<and> (v = 0 \<or> v = 1)\<close> show False
    by (auto simp: printf_i_def digits.simps digit_char_eval)
qed

subsection \<open>C7: aliases, value to text and back\<close>

text \<open>
  C7. For every entry of the alias table: an Int or IntPercent descriptor of the entry's
  set whose value is the entry's value is written as the text of the first entry of the
  table with that value in that set, which is not the numeric literal; every text equal
  to it up to case parses, in that set, to the entry's value; and Load stores that value.
\<close>

theorem C7_alias_roundtrip:
  assumes "a \<in> set aliases" "alias_text a \<noteq> []"
    and "dtype d = DEFAULT_INT \<or> dtype d = DEFAULT_INT_PERCENT"
    and "aset d = alias_set a"
  shows "\<exists>pre b post. aliases = pre @ b # post
           \<and> alias_value b = alias_value a \<and> alias_set b = alias_set a
           \<and> (\<forall>c \<in> set pre. \<not> (alias_value c = alias_value a \<and> alias_set c = alias_set a))
           \<and> format_value K d (IntV (alias_value a)) = Inr (alias_text b)
           \<and> alias_text b \<noteq> printf_i (alias_value a)
           \<and> alias_text b \<noteq> printf_i (alias_value a) @ ''%''
           \<and> (\<forall>s. strcasecmp_eq s (alias_text b)
                  \<longrightarrow> ParseIntParameter K s (aset d) = Inr (alias_value a))
           \<and> load_value K d (alias_text b) = Inr (d, IntV (alias_value a))"
proof -
  let ?v = "alias_value a" and ?s = "alias_set a"
  have m: "a \<in> set (live aliases)"
    using assms(1,2) by (rule live_aliases_mem)
  then obtain t where t: "alias_of_value aliases ?v ?s = Some t"
    using alias_of_value_total by blast
  from alias_of_value_first [OF t] obtain pre b post where
    p: "aliases = pre @ b # post" "alias_text b = t" "alias_value b = ?v" "alias_set b = ?s"
      "\<forall>c \<in> set pre. alias_text c \<noteq> [] \<and> \<not> (alias_value c = ?v \<and> alias_set c = ?s)"
    by blast
  have rt: "alias_of_text aliases t ?s = Some ?v"
  proof (rule alias_roundtrip_gen)
    show "distinct (map alias_key (live aliases))"
      unfolding live_aliases by (rule aliases_distinct)
    show "alias_of_value aliases ?v ?s = Some t"
      by (rule t)
  qed
  have parse: "ParseIntParameter K s ?s = Inr ?v" if "strcasecmp_eq s t" for s
  proof -
    have "alias_of_text aliases s ?s = alias_of_text aliases t ?s"
      using that by (intro alias_of_text_cong) (simp add: strcasecmp_eq_lower)
    then show ?thesis by (simp add: ParseIntParameter_def rt)
  qed
  have self: "strcasecmp_eq t t" by (simp add: strcasecmp_eq_def)
  from alias_of_value_mem [OF t] obtain b' where
    b': "b' \<in> set (live aliases)" "alias_text b' = t"
    by blast
  have ne: "t \<noteq> []"
    using b' by (auto simp: live_def dest: set_takeWhileD)
  have "b' \<in> set (butlast aliases)"
    using b'(1) by (simp add: live_aliases)
  then have "last (alias_text b') \<noteq> CHR ''%''"
    using aliases_no_percent by (simp add: list_all_iff)
  then have np: "last t \<noteq> CHR ''%''"
    by (simp add: b'(2))
  have lit: "t \<noteq> printf_i ?v"
    using t by (rule alias_not_literal)
  have lit2: "t \<noteq> printf_i ?v @ ''%''"
    using np by auto
  have fmt: "format_value K d (IntV ?v) = Inr t"
    using assms(3,4) t by auto
  have sp: "strip_percent t = Inr t"
    using ne np by (simp add: strip_percent_def)
  have ld: "load_value K d t = Inr (d, IntV ?v)"
    using assms(3) parse [OF self] sp by (auto simp: load_value_def assms(4))
  have pre: "\<forall>c \<in> set pre. \<not> (alias_value c = ?v \<and> alias_set c = ?s)"
    using p(5) by blast
  have all: "\<forall>s. strcasecmp_eq s t \<longrightarrow> ParseIntParameter K s (aset d) = Inr ?v"
    using parse by (simp add: assms(4))
  show ?thesis
    apply (rule exI [of _ pre])
    apply (rule exI [of _ b])
    apply (rule exI [of _ post])
    unfolding p(2)
    using p(1,3,4) pre fmt lit lit2 all ld
    apply (intro conjI)
            apply assumption+
    done
qed

theorem C7_alias_roundtrip_witness:
  "format_value sample_keys (CONFIG_VARIABLE_GENERIC ''m_novertical'' ''novert'' DEFAULT_INT 1) (IntV 0)
     = Inr ''off''
   \<and> ParseIntParameter sample_keys ''OFF'' 1 = Inr 0
   \<and> load_value sample_keys (CONFIG_VARIABLE_GENERIC ''m_novertical'' ''novert'' DEFAULT_INT 1) ''off''
     = Inr (CONFIG_VARIABLE_GENERIC ''m_novertical'' ''novert'' DEFAULT_INT 1, IntV 0)"
proof -
  let ?d = "CONFIG_VARIABLE_GENERIC ''m_novertical'' ''novert'' DEFAULT_INT 1"
  have a: "A ''false'' 0 1 \<in> set aliases" by (simp add: aliases_def)
  have b: "alias_text (A ''false'' 0 1) \<noteq> []" by (simp add: A_def)
  have c: "dtype ?d = DEFAULT_INT \<or> dtype ?d = DEFAULT_INT_PERCENT"
    by (simp add: CONFIG_VARIABLE_GENERIC_def)
  have e: "aset ?d = alias_set (A ''false'' 0 1)"
    by (simp add: CONFIG_VARIABLE_GENERIC_def A_def)
  have f: "format_value sample_keys ?d (IntV 0) = Inr ''off''"
    by (simp add: CONFIG_VARIABLE_GENERIC_def alias_of_value_0_1)
  have u: "strcasecmp_eq ''OFF'' ''off''"
    by (simp add: strcasecmp_eq_def char_int_def tolower_c_def)
  from C7_alias_roundtrip [OF a b c e, of sample_keys] f u show ?thesis
    by (auto simp: A_def CONFIG_VARIABLE_GENERIC_def)
qed

subsection \<open>Reading back what printf wrote\<close>

lemma digit_of_ranges:
  "digit_of c = Some d \<Longrightarrow>
     (48 \<le> (of_char c :: nat) \<and> (of_char c :: nat) \<le> 57) \<or>
     (97 \<le> (of_char c :: nat) \<and> (of_char c :: nat) \<le> 102) \<or>
     (65 \<le> (of_char c :: nat) \<and> (of_char c :: nat) \<le> 70)"
  by (auto simp: digit_of_def Let_def split: if_splits)

lemma is_digit_facts:
  assumes "is_digit b c"
  shows "\<not> isspace_c c" "c \<noteq> CHR ''-''" "c \<noteq> CHR ''+''" "c \<noteq> CHR ''x''" "c \<noteq> CHR ''X''"
    "c \<noteq> squote" "c \<noteq> CHR ''.''" "c \<noteq> CHR ''%''" "c \<noteq> newline" "c \<noteq> dquote"
proof -
  from assms obtain d where "digit_of c = Some d"
    by (auto simp: is_digit_def split: option.splits)
  from digit_of_ranges [OF this]
  show "\<not> isspace_c c" "c \<noteq> CHR ''-''" "c \<noteq> CHR ''+''" "c \<noteq> CHR ''x''" "c \<noteq> CHR ''X''"
    "c \<noteq> squote" "c \<noteq> CHR ''.''" "c \<noteq> CHR ''%''" "c \<noteq> newline" "c \<noteq> dquote"
    by (auto simp: isspace_c_def squote_def newline_def dquote_def)
qed

lemma is_digit_10_below: "is_digit 10 c \<Longrightarrow> 48 \<le> (of_char c :: nat) \<and> (of_char c :: nat) \<le> 57"
  by (auto simp: is_digit_def digit_of_def Let_def split: if_splits option.splits)

lemma takeWhile_digits: "2 \<le> b \<Longrightarrow> b \<le> 16 \<Longrightarrow> takeWhile (is_digit b) (digits b n) = digits b n"
  by (simp add: takeWhile_eq_all_conv digits_all_digits)

lemma scan_digits_digits: "2 \<le> b \<Longrightarrow> b \<le> 16 \<Longrightarrow> scan_digits b (digits b n) = Some n"
  by (simp add: scan_digits_def takeWhile_digits digits_nonempty digits_value_digits)

lemma digits_0: "digits 10 0 = ''0''"
  by (simp add: digits.simps digit_char_eval)

lemma digits_eq_zero:
  assumes "digits 10 n = c # r" "c = CHR ''0''"
  shows "n = 0 \<and> r = []"
proof -
  have "n = 0"
    using hd_digits [of 10 n] assms by (cases "n = 0") auto
  with assms show ?thesis by (simp add: digits_0)
qed

text \<open>The unsigned part of \<^verbatim>\<open>%i\<close> on the decimal digits of a number.\<close>

lemma scan_i_digits:
  assumes "digits 10 n = c # r"
  shows "(if c = CHR ''0'' then
            (case r of
               [] \<Rightarrow> Some 0
             | x # r' \<Rightarrow>
                 if x = CHR ''x'' \<or> x = CHR ''X'' then scan_digits 16 r'
                 else Some (digits_value 8 (takeWhile (is_digit 8) r)))
          else scan_digits 10 (c # r)) = Some n"
proof (cases "c = CHR ''0''")
  case True
  with digits_eq_zero [OF assms] show ?thesis by simp
next
  case False
  then show ?thesis
    using scan_digits_digits [of 10 n] assms by simp
qed

lemma sscanf_i_nonneg:
  assumes "n < 10 ^ 10"
  shows "sscanf_i 10 (digits 10 n) = Some (int n)"
proof -
  obtain c r where cr: "digits 10 n = c # r"
    using digits_nonempty [of 10 n] by (cases "digits 10 n") auto
  have d: "is_digit 10 c"
    using digits_all_digits [of 10 c n] cr by simp
  have l: "length (c # r) \<le> 10"
    using length_digits [of 10 n 10] assms cr by simp
  have t: "take 10 (dropWhile isspace_c (c # r)) = c # r"
    using is_digit_facts(1) [OF d] l by simp
  have s: "scan_sign (c # r) = (False, c # r)"
    using is_digit_facts(2,3) [OF d] by (simp add: scan_sign_def)
  show ?thesis
    unfolding sscanf_i_def cr t s using scan_i_digits [OF cr]
    by (simp add: signed_def)
qed

lemma sscanf_i_neg:
  assumes "0 < n" "n < 10 ^ 9"
  shows "sscanf_i 10 (CHR ''-'' # digits 10 n) = Some (- int n)"
proof -
  obtain c r where cr: "digits 10 n = c # r"
    using digits_nonempty [of 10 n] by (cases "digits 10 n") auto
  have l: "length (c # r) \<le> 9"
    using length_digits [of 10 n 9] assms cr by simp
  have t: "take 10 (dropWhile isspace_c (CHR ''-'' # c # r)) = CHR ''-'' # c # r"
    using l by (simp add: isspace_c_def)
  have s: "scan_sign (CHR ''-'' # c # r) = (True, c # r)"
    by (simp add: scan_sign_def)
  show ?thesis
    unfolding sscanf_i_def cr t s using scan_i_digits [OF cr]
    by (simp add: signed_def)
qed

lemma sscanf_i_printf_i:
  assumes "int32 v" "- 999999999 \<le> v"
  shows "sscanf_i 10 (printf_i v) = Some v"
proof (cases "v < 0")
  case True
  then have "0 < nat (- v)" "nat (- v) < 10 ^ 9"
    using assms(2) by auto
  from sscanf_i_neg [OF this] True show ?thesis
    by (simp add: printf_i_def)
next
  case False
  then have "nat v < 10 ^ 10"
    using assms(1) by (auto simp: int32_def)
  from sscanf_i_nonneg [OF this] False show ?thesis
    by (simp add: printf_i_def)
qed

lemma printf_i_chars:
  "c \<in> set (printf_i v) \<Longrightarrow> is_digit 10 c \<or> c = CHR ''-''"
  using digits_all_digits [of 10 c]
  by (auto simp: printf_i_def split: if_splits)

lemma printf_i_nonempty: "printf_i v \<noteq> []"
  by (simp add: printf_i_def digits_nonempty)

lemma quoted_key_other:
  "s = [] \<or> hd s \<noteq> squote \<Longrightarrow> quoted_key K s = Inr None"
  by (auto simp: quoted_key_def split: list.splits)


lemma take2_0x: "take 2 s = ''0x'' \<Longrightarrow> CHR ''x'' \<in> set s"
  by (metis in_set_takeD list.set_intros(1) list.set_intros(2))

lemma scan_number_printf_i:
  assumes "int32 v" "- 999999999 \<le> v"
  shows "scan_number (printf_i v) = Inr v"
proof -
  have "take 2 (printf_i v) \<noteq> ''0x''"
    using take2_0x [of "printf_i v"] printf_i_chars [of "CHR ''x''" v] is_digit_facts(4) [of 10 "CHR ''x''"]
    by auto
  then show ?thesis
    using assms by (simp add: scan_number_def sscanf_i_printf_i)
qed

lemma quoted_key_printf_i: "quoted_key K (printf_i v) = Inr None"
proof -
  have "hd (printf_i v) \<in> set (printf_i v)"
    by (simp add: printf_i_nonempty)
  then have "hd (printf_i v) \<noteq> squote"
    using printf_i_chars [of "hd (printf_i v)" v] is_digit_facts(6) [of 10 "hd (printf_i v)"]
    by (auto simp: squote_def)
  then show ?thesis
    by (simp add: quoted_key_other)
qed

text \<open>Alias texts made of digits, signs, points and percent signs only.\<close>

definition plain_code :: "int \<Rightarrow> bool" where
  "plain_code c = ((48 \<le> c \<and> c \<le> 57) \<or> c = 45 \<or> c = 46 \<or> c = 37)"

lemma aliases_plain:
  "list_all (\<lambda>a. list_all plain_code (lower_text (alias_text a))
              \<longrightarrow> (lower_text (alias_text a) = [48] \<and> alias_value a = 0)
                  \<or> (lower_text (alias_text a) = [49] \<and> alias_value a = 1)
                  \<or> lower_text (alias_text a) = [45])
     (butlast aliases)"
  by (simp add: aliases_def A_def lower_text_def squote_def dquote_def char_int_def tolower_c_def
      plain_code_def)

lemma alias_of_text_mem:
  "alias_of_text as t s = Some w
     \<Longrightarrow> \<exists>a \<in> set (live as). lower_text t = lower_text (alias_text a) \<and> alias_set a = s
           \<and> alias_value a = w"
  by (induction as) (auto simp: live_simps strcasecmp_eq_lower split: if_splits)

lemma alias_of_text_None:
  "\<forall>a \<in> set (live as). lower_text t \<noteq> lower_text (alias_text a)
     \<Longrightarrow> alias_of_text as t s = None"
  by (induction as) (auto simp: live_simps strcasecmp_eq_lower)

lemma lower_code_char:
  assumes "tolower_c (char_int c) = k" "0 \<le> k" "k < 65"
  shows "c = char_of k"
proof -
  have "char_int c = k"
    using assms by (auto simp: tolower_c_def split: if_splits)
  moreover have "(of_char c :: int) < 256"
    using of_nat_of_char [of c, where ?'a = int] nat_of_char_less_256 [of c] by linarith
  ultimately have "(of_char c :: int) = k"
    using assms(2) by (auto simp: char_int_def split: if_splits)
  then show ?thesis
    by auto
qed

lemma lower_text_single:
  assumes "lower_text t = [k]" "0 \<le> k" "k < 65"
  shows "t = [char_of k]"
proof -
  from assms(1) obtain c where c: "t = [c]" "tolower_c (char_int c) = k"
    by (auto simp: lower_text_def)
  with lower_code_char [OF c(2) assms(2,3)] show ?thesis by simp
qed

lemma lower_digit_plain: "is_digit 10 c \<or> c = CHR ''-'' \<or> c = CHR ''.'' \<or> c = CHR ''%''
    \<Longrightarrow> plain_code (tolower_c (char_int c))"
proof -
  assume a: "is_digit 10 c \<or> c = CHR ''-'' \<or> c = CHR ''.'' \<or> c = CHR ''%''"
  have "is_digit 10 c \<Longrightarrow> 48 \<le> (of_char c :: int) \<and> (of_char c :: int) \<le> 57"
    using is_digit_10_below [of c] of_nat_of_char [of c, where ?'a = int]
    by linarith
  with a show ?thesis
    by (auto simp: plain_code_def tolower_c_def char_int_def)
qed

lemma alias_of_text_printf_i:
  assumes "alias_of_text aliases (printf_i v) s = Some w" "int32 v" "- 999999999 \<le> v"
  shows "w = v"
proof -
  let ?t = "printf_i v"
  from alias_of_text_mem [OF assms(1)] obtain a where
    a: "a \<in> set (butlast aliases)" "lower_text ?t = lower_text (alias_text a)" "alias_value a = w"
    by (auto simp: live_aliases)
  have "list_all plain_code (lower_text ?t)"
    using printf_i_chars [of _ v] lower_digit_plain
    by (auto simp: lower_text_def list_all_iff)
  with a aliases_plain have cases3:
    "(lower_text ?t = [48] \<and> w = 0) \<or> (lower_text ?t = [49] \<and> w = 1) \<or> lower_text ?t = [45]"
    by (auto simp: list_all_iff)
  have rt: "sscanf_i 10 ?t = Some v"
    using assms(2,3) by (rule sscanf_i_printf_i)
  have e0: "sscanf_i 10 ''0'' = Some 0" and e1: "sscanf_i 10 ''1'' = Some 1"
    and em: "sscanf_i 10 ''-'' = None"
    by (simp_all add: scan_eval)
  have c0: "[char_of (48 :: int)] = ''0''" and c1: "[char_of (49 :: int)] = ''1''"
    and cm: "[char_of (45 :: int)] = ''-''"
    by (simp_all add: char_of_def)
  from cases3 show ?thesis
  proof (elim disjE conjE)
    assume "lower_text ?t = [48]" "w = 0"
    with lower_text_single [of ?t 48] c0 rt e0 show ?thesis by simp
  next
    assume "lower_text ?t = [49]" "w = 1"
    with lower_text_single [of ?t 49] c1 rt e1 show ?thesis by simp
  next
    assume "lower_text ?t = [45]"
    with lower_text_single [of ?t 45] cm rt em show ?thesis by simp
  qed
qed

lemma parse_printf_i:
  assumes "int32 v" "- 999999999 \<le> v"
  shows "ParseIntParameter K (printf_i v) s = Inr v"
proof (cases "alias_of_text aliases (printf_i v) s")
  case None
  then show ?thesis
    using assms by (simp add: ParseIntParameter_def quoted_key_printf_i scan_number_printf_i)
next
  case (Some w)
  with alias_of_text_printf_i [OF Some assms] show ?thesis
    by (simp add: ParseIntParameter_def)
qed

lemma as_int32_mod:
  assumes "int32 v"
  shows "as_int32 (v mod 4294967296) = v"
proof (cases "0 \<le> v")
  case True
  then have "v mod 4294967296 = v"
    using assms by (simp add: int32_def)
  then show ?thesis
    using assms by (simp add: as_int32_def int32_def)
next
  case False
  have "(v + 4294967296) mod 4294967296 = v + 4294967296"
    using assms False by (intro mod_pos_pos_trivial) (auto simp: int32_def)
  then have "v mod 4294967296 = v + 4294967296"
    by simp
  then show ?thesis
    using assms False by (simp add: as_int32_def int32_def Let_def)
qed

lemma skip_0x_digits: "\<forall>c \<in> set t. is_digit 16 c \<Longrightarrow> skip_0x t = t"
  using is_digit_facts(4,5) [of 16]
  by (auto simp: skip_0x_def split: list.splits)

lemma sscanf_x_digits:
  assumes "n < 16 ^ 8"
  shows "sscanf_x 10 (digits 16 n) = Some (int n)"
proof -
  let ?t = "digits 16 n"
  have d: "\<forall>c \<in> set ?t. is_digit 16 c"
    using digits_all_digits [of 16 _ n] by simp
  have h: "is_digit 16 (hd ?t)"
    using d digits_nonempty [of 16 n] by simp
  have l: "length ?t \<le> 8"
    using length_digits [of 16 n 8] assms by simp
  have "dropWhile isspace_c ?t = ?t"
    using is_digit_facts(1) [OF h] digits_nonempty [of 16 n] by (cases ?t) auto
  then have t: "take 10 (dropWhile isspace_c ?t) = ?t"
    using l by simp
  have s: "scan_sign ?t = (False, ?t)"
    using is_digit_facts(2,3) [OF h] digits_nonempty [of 16 n]
    by (cases ?t) (auto simp: scan_sign_def)
  show ?thesis
    by (simp add: sscanf_x_def t s skip_0x_digits [OF d] scan_digits_digits signed_def)
qed

lemma aliases_no_0x:
  "list_all (\<lambda>a. take 2 (lower_text (alias_text a)) \<noteq> [48, 120]) (butlast aliases)"
  by (simp add: aliases_def A_def lower_text_def squote_def dquote_def char_int_def tolower_c_def)

lemma alias_of_text_0x: "alias_of_text aliases (CHR ''0'' # CHR ''x'' # r) s = None"
proof (rule alias_of_text_None, rule ballI)
  fix a assume "a \<in> set (live aliases)"
  then have "take 2 (lower_text (alias_text a)) \<noteq> [48, 120]"
    using aliases_no_0x by (simp add: live_aliases list_all_iff)
  moreover have "take 2 (lower_text (CHR ''0'' # CHR ''x'' # r)) = [48, 120]"
    by (simp add: lower_text_def char_int_def tolower_c_def)
  ultimately show "lower_text (CHR ''0'' # CHR ''x'' # r) \<noteq> lower_text (alias_text a)"
    by metis
qed

lemma parse_printf_x:
  assumes "int32 v"
  shows "ParseIntParameter K (''0x'' @ printf_x v) s = Inr v"
proof -
  let ?u = "nat (v mod 4294967296)"
  have u: "?u < 16 ^ 8" by simp
  have q: "quoted_key K (CHR ''0'' # CHR ''x'' # printf_x v) = Inr None"
    by (rule quoted_key_other) (simp add: squote_def)
  have "sscanf_x 10 (printf_x v) = Some (v mod 4294967296)"
    using sscanf_x_digits [OF u] by (simp add: printf_x_def)
  then have "scan_number (''0x'' @ printf_x v) = Inr v"
    using assms by (simp add: scan_number_def as_int32_mod abs_if)
  then show ?thesis
    by (simp add: ParseIntParameter_def alias_of_text_0x q)
qed

lemma load_string_quoted: "load_string (dquote # t @ [dquote]) = Inr t"
  by (simp add: load_string_def)

lemma strip_nonprint_keep:
  "s \<noteq> [] \<Longrightarrow> isprint_c (char_int (last s)) \<Longrightarrow> strip_nonprint s = s"
  by (cases s rule: rev_cases) (simp_all add: strip_nonprint_def)

subsection \<open>Scanning a line that Save wrote\<close>

definition name_ok :: "string \<Rightarrow> bool" where
  "name_ok n = (n \<noteq> [] \<and> length n \<le> 31 \<and> list_all (\<lambda>c. \<not> isspace_c c) n \<and> hd n \<noteq> CHR ''b'')"

definition text_ok :: "string \<Rightarrow> bool" where
  "text_ok t = (t \<noteq> [] \<and> length t \<le> 255 \<and> newline \<notin> set t \<and> \<not> isspace_c (hd t)
                \<and> isprint_c (char_int (last t)))"

lemma fscanf_bind_other: "n \<noteq> [] \<Longrightarrow> hd n \<noteq> CHR ''b'' \<Longrightarrow> fscanf_bind (n @ r) = (None, n @ r)"
  by (cases n) (simp_all add: fscanf_bind_def)

lemma dropWhile_hd: "xs \<noteq> [] \<Longrightarrow> \<not> P (hd xs) \<Longrightarrow> dropWhile P (xs @ ys) = xs @ ys"
  by (cases xs) simp_all

lemma takeWhile_upto: "\<forall>x \<in> set xs. P x \<Longrightarrow> \<not> P y \<Longrightarrow> takeWhile P (xs @ y # ys) = xs"
  by (simp add: takeWhile_tail)

lemma isspace_newline: "isspace_c newline" "isspace_c (CHR '' '')"
  by (simp_all add: isspace_c_def newline_def)

lemma fscanf_cvar_line:
  assumes "name_ok n" "text_ok t"
  shows "fscanf_cvar (n @ CHR '' '' # t @ newline # rest) = (Some (n, t), dropWhile isspace_c rest)"
proof -
  define inp where "inp = n @ CHR '' '' # t @ newline # rest"
  define inp2 where "inp2 = t @ newline # rest"
  have n: "n \<noteq> []" "length n \<le> 31" "\<forall>c \<in> set n. \<not> isspace_c c"
    using assms(1) by (auto simp: name_ok_def list_all_iff)
  have t: "t \<noteq> []" "length t \<le> 255" "\<forall>c \<in> set t. c \<noteq> newline" "\<not> isspace_c (hd t)"
    using assms(2) by (auto simp: text_ok_def)
  have i1: "dropWhile isspace_c inp = inp"
    unfolding inp_def using n(1,3) by (intro dropWhile_hd) auto
  have "takeWhile (\<lambda>c. \<not> isspace_c c) inp = n"
    unfolding inp_def
    using takeWhile_upto [of n "\<lambda>c. \<not> isspace_c c" "CHR '' ''" "t @ newline # rest"] n(3)
    by (simp add: isspace_newline)
  then have tk: "take 31 (takeWhile (\<lambda>c. \<not> isspace_c c) inp) = n"
    using n(2) by simp
  have i2: "dropWhile isspace_c (drop (length n) inp) = inp2"
    unfolding inp_def inp2_def
    using dropWhile_hd [of t isspace_c "newline # rest"] t(1,4) by (simp add: isspace_newline)
  have "takeWhile (\<lambda>c. c \<noteq> newline) inp2 = t"
    unfolding inp2_def
    using takeWhile_upto [of t "\<lambda>c. c \<noteq> newline" newline rest] t(3) by simp
  then have tk2: "take 255 (takeWhile (\<lambda>c. c \<noteq> newline) inp2) = t"
    using t(2) by simp
  have i3: "dropWhile isspace_c (drop (length t) inp2) = dropWhile isspace_c rest"
    unfolding inp2_def by (simp add: isspace_newline)
  have "fscanf_cvar inp = (Some (n, t), dropWhile isspace_c rest)"
    unfolding fscanf_cvar_def Let_def i1 tk i2 tk2 i3 using n(1) t(1) by simp
  then show ?thesis
    unfolding inp_def .
qed

lemma load_cvar_found:
  assumes "\<forall>c \<in> set ds1. name c \<noteq> name d" "load_value K d s = Inr (d', v)"
  shows "load_cvar K (ds1 @ d # ds2) (name d) s vs = Inr (ds1 @ d' # ds2, vs(location d := v))"
  using assms by (induction ds1) auto

lemma load_turn_line:
  assumes "name_ok (name d)" "text_ok t"
    and "cvars st = ds1 @ d # ds2" "\<forall>c \<in> set ds1. name c \<noteq> name d"
    and "load_value K d t = Inr (d', v)"
  shows "load_turn K (name d @ CHR '' '' # t @ newline # rest) st =
           Inr (st\<lparr>cvars := ds1 @ d' # ds2, vars := (vars st)(location d := v)\<rparr>,
                dropWhile isspace_c rest)"
proof -
  define inp where "inp = name d @ CHR '' '' # t @ newline # rest"
  have b: "fscanf_bind inp = (None, inp)"
    unfolding inp_def using assms(1) by (intro fscanf_bind_other) (auto simp: name_ok_def)
  have c: "fscanf_cvar inp = (Some (name d, t), dropWhile isspace_c rest)"
    unfolding inp_def using assms(1,2) by (rule fscanf_cvar_line)
  have s: "strip_nonprint t = t"
    using assms(2) by (intro strip_nonprint_keep) (auto simp: text_ok_def)
  have "load_turn K inp st =
           Inr (st\<lparr>cvars := ds1 @ d' # ds2, vars := (vars st)(location d := v)\<rparr>,
                dropWhile isspace_c rest)"
    unfolding load_turn_def b by (simp add: c s assms(3) load_cvar_found [OF assms(4,5)])
  then show ?thesis
    unfolding inp_def .
qed

subsection \<open>The texts of the formatter\<close>

lemma aliases_text_ok: "list_all (\<lambda>a. text_ok (alias_text a)) (butlast aliases)"
  by (simp add: aliases_def A_def text_ok_def squote_def dquote_def newline_def isspace_c_def
      isprint_c_def char_int_def)

lemma alias_text_ok: "alias_of_value aliases v s = Some t \<Longrightarrow> text_ok t"
  using alias_of_value_mem [of aliases v s t] aliases_text_ok
  by (auto simp: live_aliases list_all_iff)

lemma is_digit_printable: "is_digit b c \<Longrightarrow> isprint_c (char_int c)"
proof -
  assume "is_digit b c"
  then obtain d where "digit_of c = Some d"
    by (auto simp: is_digit_def split: option.splits)
  from digit_of_ranges [OF this] of_nat_of_char [of c, where ?'a = int]
  show ?thesis
    by (auto simp: isprint_c_def char_int_def)
qed

lemma printf_i_length: "int32 v \<Longrightarrow> length (printf_i v) \<le> 11"
proof -
  assume "int32 v"
  then have "\<bar>v\<bar> < 10 ^ 10" by (auto simp: int32_def)
  from length_printf_i [OF this] show ?thesis by simp
qed

lemma printf_i_text_ok: "int32 v \<Longrightarrow> text_ok (printf_i v)"
proof -
  assume v: "int32 v"
  have c: "is_digit 10 c \<or> c = CHR ''-''" if "c \<in> set (printf_i v)" for c
    using that by (rule printf_i_chars)
  have ne: "printf_i v \<noteq> []" by (rule printf_i_nonempty)
  have h: "\<not> isspace_c (hd (printf_i v))"
    using c [of "hd (printf_i v)"] ne is_digit_facts(1) [of 10 "hd (printf_i v)"]
    by (auto simp: isspace_c_def)
  have l: "is_digit 10 (last (printf_i v))"
    using digits_all_digits [of 10 "last (digits 10 n)" n for n] digits_nonempty [of 10]
    by (simp add: printf_i_def)
  have nl: "newline \<notin> set (printf_i v)"
    using c [of newline] is_digit_facts(9) [of 10 newline] by (auto simp: newline_def)
  show ?thesis
    using ne h nl printf_i_length [OF v] is_digit_printable [OF l]
    by (simp add: text_ok_def)
qed

lemma percent_text_ok: "int32 v \<Longrightarrow> text_ok (printf_i v @ ''%'')"
  using printf_i_text_ok [of v]
  by (auto simp: text_ok_def isprint_c_def char_int_def newline_def printf_i_length
      intro: le_trans [OF printf_i_length])

lemma hex_text_ok: "text_ok (CHR ''0'' # CHR ''x'' # printf_x v)"
proof -
  let ?u = "nat (v mod 4294967296)"
  have "?u < 16 ^ 8" by simp
  then have l: "length (printf_x v) \<le> 8"
    using length_digits [of 16 ?u 8] by (simp add: printf_x_def)
  have d: "is_digit 16 c" if "c \<in> set (printf_x v)" for c
    using digits_all_digits [of 16 c ?u] that by (simp add: printf_x_def)
  have ne: "printf_x v \<noteq> []" by (simp add: printf_x_def digits_nonempty)
  have nl: "newline \<notin> set (printf_x v)"
    using d [of newline] is_digit_facts(9) [of 16 newline] by auto
  have "isprint_c (char_int (last (printf_x v)))"
    using d [of "last (printf_x v)"] ne by (simp add: is_digit_printable)
  then show ?thesis
    using l ne nl by (simp add: text_ok_def isspace_c_def newline_def)
qed

lemma string_text_ok:
  "newline \<notin> set t \<Longrightarrow> length t \<le> 253 \<Longrightarrow> text_ok (dquote # t @ [dquote])"
  by (simp add: text_ok_def dquote_def newline_def isspace_c_def isprint_c_def char_int_def)

subsection \<open>C9: a settings file that cannot be opened\<close>

text \<open>
  C9 as stated: when the file cannot be opened for writing, Save modifies no registry
  value. \<^verbatim>\<open>M_SaveDefaults\<close> sets \<^verbatim>\<open>widescreen\<close> before it calls
  \<^verbatim>\<open>SaveDefaultCollection\<close> and clears it afterwards when \<^verbatim>\<open>returntowidescreen\<close> is set,
  whether or not the file could be opened: called with both set, it returns with
  \<^verbatim>\<open>widescreen\<close> cleared.
\<close>

theorem C9_counterexample:
  "M_SaveDefaults sample_keys [] []
      \<lparr>cvars = [], vars = no_vars(''widescreen'' := IntV 1), returntowidescreen = 1,
       bind_calls = []\<rparr>
      \<lparr>contents = None, writable = False\<rparr>
     = Inr (\<lparr>cvars = [], vars = no_vars(''widescreen'' := IntV 0), returntowidescreen = 1,
              bind_calls = []\<rparr>, \<lparr>contents = None, writable = False\<rparr>)
   \<and> (no_vars(''widescreen'' := IntV 0)) ''widescreen''
       \<noteq> (no_vars(''widescreen'' := IntV 1)) ''widescreen''"
  by (simp add: M_SaveDefaults_def SaveDefaultCollection_def)

text \<open>
  C9 as amended: when the file cannot be opened for writing, \<^verbatim>\<open>SaveDefaultCollection\<close>
  returns normally with the state and the file as they were; \<^verbatim>\<open>M_SaveDefaults\<close> returns
  normally with the file as it was and the state as it was except for \<^verbatim>\<open>widescreen\<close>, which
  is 0 afterwards when \<^verbatim>\<open>returntowidescreen\<close> is set and is untouched otherwise. Neither
  function has a result that could report a failure.
\<close>

theorem C9_save_open_failure:
  assumes "\<not> writable f"
  shows "SaveDefaultCollection K controls actions st f = Inr (st, f)
       \<and> M_SaveDefaults K controls actions st f =
           Inr (st\<lparr>vars := (vars st)(''widescreen'' :=
                        (if returntowidescreen st \<noteq> 0 then IntV 0 else vars st ''widescreen''))\<rparr>,
                f)"
proof -
  have s: "\<And>s. SaveDefaultCollection K controls actions s f = Inr (s, f)"
    using assms by (simp add: SaveDefaultCollection_def)
  show ?thesis
    by (simp add: M_SaveDefaults_def s Let_def)
qed

theorem C9_save_open_failure_witness:
  "SaveDefaultCollection sample_keys [] []
      \<lparr>cvars = [key_fire 200 (- 1) 0], vars = no_vars, returntowidescreen = 1, bind_calls = []\<rparr>
      \<lparr>contents = None, writable = False\<rparr>
     = Inr (\<lparr>cvars = [key_fire 200 (- 1) 0], vars = no_vars, returntowidescreen = 1,
              bind_calls = []\<rparr>, \<lparr>contents = None, writable = False\<rparr>)
   \<and> M_SaveDefaults sample_keys [] []
      \<lparr>cvars = [key_fire 200 (- 1) 0], vars = no_vars, returntowidescreen = 1, bind_calls = []\<rparr>
      \<lparr>contents = None, writable = False\<rparr>
     = Inr (\<lparr>cvars = [key_fire 200 (- 1) 0], vars = no_vars, returntowidescreen = 1,
              bind_calls = []\<rparr>, \<lparr>contents = None, writable = False\<rparr>)"
proof -
  have w: "\<not> writable \<lparr>contents = None, writable = False\<rparr>" by simp
  have n: "no_vars(''widescreen'' := IntV 0) = no_vars"
    by (rule ext) (simp add: no_vars_def)
  show ?thesis
    using C9_save_open_failure [OF w, of sample_keys "[]" "[]"
      "\<lparr>cvars = [key_fire 200 (- 1) 0], vars = no_vars, returntowidescreen = 1, bind_calls = []\<rparr>"]
    by (simp add: n)
qed

subsection \<open>C10: loading a string\<close>



end
